theory Spec2Isabelle
  imports Complex_Main "HOL-Library.Multiset"
begin

section \<open>Numbers\<close>

text \<open>
  Every TypeScript \<^verbatim>\<open>number\<close> is modelled as a real. The model is the exact-arithmetic
  reading of the code: there is no rounding, no NaN and no infinity. A division by zero,
  which gives NaN or an infinity in the source, is outside the model: a theorem that depends
  on the value of a quotient carries the hypothesis that the divisor is not zero.
\<close>

definition js_round :: "real \<Rightarrow> int" where
  \<comment> \<open>\<^verbatim>\<open>Math.round\<close>: the nearest integer, halves rounded up.\<close>
  "js_round v = \<lfloor>v + 1 / 2\<rfloor>"

definition slice_last :: "nat \<Rightarrow> 'a list \<Rightarrow> 'a list" where
  \<comment> \<open>\<^verbatim>\<open>xs.slice(-n)\<close>\<close>
  "slice_last n xs = drop (length xs - n) xs"

section \<open>Data model (types.ts)\<close>

record vec2 =
  vec_x :: real
  vec_y :: real

datatype gradient_type = Linear | Radial | Conic

datatype interaction_mode =
  Idle | Panning | DraggingLayer | DraggingGradient | Resizing | Drawing

record gradient_stop =
  stop_id :: string
  offset :: real
  color :: string
  opacity :: real
  midpoint :: "real option"

record gradient =
  gtype :: gradient_type
  stops :: "gradient_stop list"
  angle :: real
  center :: vec2
  gstart :: "vec2 option"
  gend :: "vec2 option"
  radius :: "real option"
  ratio :: "real option"

datatype layer_kind = Artboard | Rectangle | Circle

datatype fill = Solid string | GradientFill gradient

record layer =
  layer_id :: string
  layer_kind :: layer_kind
  layer_name :: string
  layer_x :: real
  layer_y :: real
  width :: real
  height :: real
  rotation :: real
  visible :: bool
  fill :: fill
  borderRadius :: "real option"

record viewport =
  view_x :: real
  view_y :: real
  zoom :: real

text \<open>
  \<^verbatim>\<open>Partial<GradientStop>\<close> and \<^verbatim>\<open>Partial<Gradient>\<close>: every field may be absent
  (\<open>None\<close>). A field that is itself optional in the full type may be present with the
  value \<^verbatim>\<open>undefined\<close> (\<open>Some None\<close>).
\<close>

record stop_updates =
  u_id :: "string option"
  u_offset :: "real option"
  u_color :: "string option"
  u_opacity :: "real option"
  u_midpoint :: "real option option"

record gradient_updates =
  up_type :: "gradient_type option"
  up_stops :: "gradient_stop list option"
  up_angle :: "real option"
  up_center :: "vec2 option"
  up_start :: "vec2 option option"
  up_end :: "vec2 option option"
  up_radius :: "real option option"
  up_ratio :: "real option option"

definition no_stop_updates :: stop_updates where
  "no_stop_updates =
     \<lparr>u_id = None, u_offset = None, u_color = None, u_opacity = None, u_midpoint = None\<rparr>"

definition no_gradient_updates :: gradient_updates where
  "no_gradient_updates =
     \<lparr>up_type = None, up_stops = None, up_angle = None, up_center = None,
      up_start = None, up_end = None, up_radius = None, up_ratio = None\<rparr>"

definition spread :: "'a \<Rightarrow> 'a option \<Rightarrow> 'a" where
  \<comment> \<open>one field of \<^verbatim>\<open>{ ...old, ...updates }\<close>\<close>
  "spread old upd = (case upd of None \<Rightarrow> old | Some v \<Rightarrow> v)"

definition mergeStop :: "gradient_stop \<Rightarrow> stop_updates \<Rightarrow> gradient_stop" where
  \<comment> \<open>\<^verbatim>\<open>{ ...s, ...updates }\<close>\<close>
  "mergeStop s u =
     \<lparr>stop_id = spread (stop_id s) (u_id u),
      offset = spread (offset s) (u_offset u),
      color = spread (color s) (u_color u),
      opacity = spread (opacity s) (u_opacity u),
      midpoint = spread (midpoint s) (u_midpoint u)\<rparr>"

definition mergeGradient :: "gradient \<Rightarrow> gradient_updates \<Rightarrow> gradient" where
  \<comment> \<open>\<^verbatim>\<open>{ ...gradient, ...gradientUpdates }\<close>\<close>
  "mergeGradient g u =
     \<lparr>gtype = spread (gtype g) (up_type u),
      stops = spread (stops g) (up_stops u),
      angle = spread (angle g) (up_angle u),
      center = spread (center g) (up_center u),
      gstart = spread (gstart g) (up_start u),
      gend = spread (gend g) (up_end u),
      radius = spread (radius g) (up_radius u),
      ratio = spread (ratio g) (up_ratio u)\<rparr>"

definition sortByOffset :: "gradient_stop list \<Rightarrow> gradient_stop list" where
  \<comment> \<open>\<^verbatim>\<open>[...stops].sort((a, b) => a.offset - b.offset)\<close>: the sort is stable.\<close>
  "sortByOffset ss = sort_key offset ss"

section \<open>The store (store.ts)\<close>

text \<open>
  The fields of \<^verbatim>\<open>EditorState\<close> that the gradient actions read or write. A history entry
  is the pair that \<^verbatim>\<open>JSON.stringify({ layers, layerOrder })\<close> serialises.
\<close>

datatype js_error = TypeError

record snapshot =
  snap_layers :: "string \<rightharpoonup> layer"
  snap_layerOrder :: "string list"

record hist =
  past :: "snapshot list"
  future :: "snapshot list"

record editor_state =
  layers :: "string \<rightharpoonup> layer"
  layerOrder :: "string list"
  selectedIds :: "string list"
  interactionMode :: interaction_mode
  history :: hist

definition MAX_HISTORY :: nat where
  "MAX_HISTORY = 50"

definition INITIAL_GRADIENT :: gradient where
  "INITIAL_GRADIENT =
     \<lparr>gtype = Linear,
      stops =
        [\<lparr>stop_id = ''init-1'', offset = 0, color = ''#00EBE5'', opacity = 1, midpoint = None\<rparr>,
         \<lparr>stop_id = ''init-2'', offset = 0.5, color = ''#DAA3FF'', opacity = 1, midpoint = None\<rparr>,
         \<lparr>stop_id = ''init-3'', offset = 1, color = ''#F9AB3E'', opacity = 1, midpoint = None\<rparr>],
      angle = 135,
      center = \<lparr>vec_x = 0.5, vec_y = 0.5\<rparr>,
      gstart = None, gend = None, radius = None, ratio = None\<rparr>"

definition initialState :: editor_state where
  "initialState =
     \<lparr>layers = [''artboard-1'' \<mapsto>
        \<lparr>layer_id = ''artboard-1'', layer_kind = Artboard, layer_name = ''Main Board'',
         layer_x = 100, layer_y = 100, width = 1200, height = 800, rotation = 0,
         visible = True, fill = GradientFill INITIAL_GRADIENT, borderRadius = None\<rparr>],
      layerOrder = [''artboard-1''],
      selectedIds = [''artboard-1''],
      interactionMode = Idle,
      history = \<lparr>past = [], future = []\<rparr>\<rparr>"

definition saveSnapshot :: "editor_state \<Rightarrow> editor_state" where
  "saveSnapshot state =
     (let current = \<lparr>snap_layers = layers state, snap_layerOrder = layerOrder state\<rparr>
      in state\<lparr>history :=
           \<lparr>past = slice_last MAX_HISTORY (past (history state) @ [current]),
            future = []\<rparr>\<rparr>)"

definition setInteractionMode :: "interaction_mode \<Rightarrow> editor_state \<Rightarrow> editor_state" where
  "setInteractionMode m state = state\<lparr>interactionMode := m\<rparr>"

definition updateLayerGradient ::
  "string \<Rightarrow> gradient_updates \<Rightarrow> bool \<Rightarrow> editor_state \<Rightarrow> js_error + editor_state" where
  \<comment> \<open>Reading \<^verbatim>\<open>layer.fill\<close> of a missing layer throws, after the snapshot was taken.\<close>
  "updateLayerGradient layerId gradientUpdates recordHistory state0 =
     (let state = (if recordHistory then saveSnapshot state0 else state0)
      in case layers state layerId of
           None \<Rightarrow> Inl TypeError
         | Some layer \<Rightarrow>
             (let fill' = (case fill layer of
                             Solid c \<Rightarrow> mergeGradient INITIAL_GRADIENT gradientUpdates
                           | GradientFill g \<Rightarrow> mergeGradient g gradientUpdates)
              in Inr (state\<lparr>layers := (layers state)(layerId \<mapsto>
                                 layer\<lparr>fill := GradientFill fill'\<rparr>)\<rparr>)))"

definition addGradientStopWith ::
  "string \<Rightarrow> string \<Rightarrow> real \<Rightarrow> string option \<Rightarrow> editor_state \<Rightarrow> editor_state" where
  \<comment> \<open>\<^verbatim>\<open>addGradientStop\<close>; the first argument is the value \<^verbatim>\<open>generateId()\<close> returns.
      An absent or empty colour becomes \<^verbatim>\<open>'#ffffff'\<close>.\<close>
  "addGradientStopWith newId layerId off col state0 =
     (let state = saveSnapshot state0
      in case layers state layerId of
           None \<Rightarrow> state
         | Some layer \<Rightarrow>
             (case fill layer of
                Solid c \<Rightarrow> state
              | GradientFill g \<Rightarrow>
                  (let c = (case col of None \<Rightarrow> ''#ffffff''
                                      | Some s \<Rightarrow> if s = [] then ''#ffffff'' else s);
                       stops' = sortByOffset (stops g @
                                  [\<lparr>stop_id = newId, offset = off, color = c,
                                    opacity = 1, midpoint = None\<rparr>])
                   in state\<lparr>layers := (layers state)(layerId \<mapsto>
                               layer\<lparr>fill := GradientFill (g\<lparr>stops := stops'\<rparr>)\<rparr>)\<rparr>)))"

definition removeGradientStop :: "string \<Rightarrow> string \<Rightarrow> editor_state \<Rightarrow> editor_state" where
  "removeGradientStop layerId stopId state0 =
     (let state = saveSnapshot state0
      in case layers state layerId of
           None \<Rightarrow> state
         | Some layer \<Rightarrow>
             (case fill layer of
                Solid c \<Rightarrow> state
              | GradientFill g \<Rightarrow>
                  if length (stops g) \<le> 2 then state
                  else state\<lparr>layers := (layers state)(layerId \<mapsto>
                         layer\<lparr>fill := GradientFill
                           (g\<lparr>stops := filter (\<lambda>s. stop_id s \<noteq> stopId) (stops g)\<rparr>)\<rparr>)\<rparr>))"

definition updateGradientStop ::
  "string \<Rightarrow> string \<Rightarrow> stop_updates \<Rightarrow> editor_state \<Rightarrow> editor_state" where
  "updateGradientStop layerId stopId updates state =
     (case layers state layerId of
        None \<Rightarrow> state
      | Some layer \<Rightarrow>
          (case fill layer of
             Solid c \<Rightarrow> state
           | GradientFill g \<Rightarrow>
               (let stops' = sortByOffset
                      (map (\<lambda>s. if stop_id s = stopId then mergeStop s updates else s) (stops g))
                in state\<lparr>layers := (layers state)(layerId \<mapsto>
                            layer\<lparr>fill := GradientFill (g\<lparr>stops := stops'\<rparr>)\<rparr>)\<rparr>)))"

text \<open>The stop list of a layer that has a gradient fill; \<open>None\<close> for a missing layer or a flat colour.\<close>

definition stopsOf :: "editor_state \<Rightarrow> string \<Rightarrow> gradient_stop list option" where
  "stopsOf state layerId =
     (case layers state layerId of
        None \<Rightarrow> None
      | Some layer \<Rightarrow> (case fill layer of Solid c \<Rightarrow> None | GradientFill g \<Rightarrow> Some (stops g)))"

text \<open>The update of one offset edit, \<^verbatim>\<open>{ offset: t }\<close>, and a sequence of such edits.\<close>

definition offsetEdit :: "real \<Rightarrow> stop_updates" where
  "offsetEdit t = no_stop_updates\<lparr>u_offset := Some t\<rparr>"

fun offsetEdits :: "string \<Rightarrow> (string \<times> real) list \<Rightarrow> editor_state \<Rightarrow> editor_state" where
  "offsetEdits layerId [] state = state"
| "offsetEdits layerId ((stopId, t) # es) state =
     offsetEdits layerId es (updateGradientStop layerId stopId (offsetEdit t) state)"

text \<open>Two stop lists used as examples: one with two stops, one where three stops share an id.\<close>

definition twoStops :: "gradient_stop list" where
  "twoStops =
     [\<lparr>stop_id = ''a'', offset = 0, color = ''#000000'', opacity = 1, midpoint = None\<rparr>,
      \<lparr>stop_id = ''b'', offset = 1, color = ''#FFFFFF'', opacity = 1, midpoint = None\<rparr>]"

definition sharedIdStops :: "gradient_stop list" where
  "sharedIdStops =
     [\<lparr>stop_id = ''a'', offset = 0, color = ''#000000'', opacity = 1, midpoint = None\<rparr>,
      \<lparr>stop_id = ''a'', offset = 0.5, color = ''#808080'', opacity = 1, midpoint = None\<rparr>,
      \<lparr>stop_id = ''a'', offset = 1, color = ''#FFFFFF'', opacity = 1, midpoint = None\<rparr>]"

definition stateWithStops :: "gradient_stop list \<Rightarrow> editor_state" where
  "stateWithStops ss =
     initialState\<lparr>layers := [''artboard-1'' \<mapsto>
        \<lparr>layer_id = ''artboard-1'', layer_kind = Artboard, layer_name = ''Main Board'',
         layer_x = 100, layer_y = 100, width = 1200, height = 800, rotation = 0,
         visible = True, fill = GradientFill (INITIAL_GRADIENT\<lparr>stops := ss\<rparr>),
         borderRadius = None\<rparr>]\<rparr>"

section \<open>Geometry and colour helpers (utils.ts)\<close>

subsection \<open>JavaScript primitives\<close>

definition js_mod :: "real \<Rightarrow> real \<Rightarrow> real" where
  \<comment> \<open>The \<^verbatim>\<open>%\<close> operator for a non-zero divisor: the remainder of the truncated
      division, which has the sign of the dividend.\<close>
  "js_mod a n = sgn a * (\<bar>a\<bar> - \<bar>n\<bar> * of_int \<lfloor>\<bar>a\<bar> / \<bar>n\<bar>\<rfloor>)"

definition atan2 :: "real \<Rightarrow> real \<Rightarrow> real" where
  \<comment> \<open>\<^verbatim>\<open>Math.atan2(y, x)\<close>, in \<open>(-pi, pi]\<close>; the reals have one zero, so
      \<^verbatim>\<open>atan2(0, x)\<close> for negative \<open>x\<close> is \<open>pi\<close>.\<close>
  "atan2 y x =
     (if 0 < x then arctan (y / x)
      else if x < 0 then (if 0 \<le> y then arctan (y / x) + pi else arctan (y / x) - pi)
      else if 0 < y then pi / 2
      else if y < 0 then - pi / 2
      else 0)"

definition hexDigit :: "char \<Rightarrow> nat option" where
  "hexDigit c =
     (let n = (of_char c :: nat)
      in if 48 \<le> n \<and> n \<le> 57 then Some (n - 48)
         else if 97 \<le> n \<and> n \<le> 102 then Some (n - 87)
         else if 65 \<le> n \<and> n \<le> 70 then Some (n - 55)
         else None)"

definition parseInt16 :: "string \<Rightarrow> nat option" where
  \<comment> \<open>\<^verbatim>\<open>parseInt(s, 16)\<close> on a non-empty string of hexadecimal digits. On any other
      string the source yields NaN or the value of a prefix; the model covers well-formed
      hexadecimal text only and answers \<open>None\<close> there.\<close>
  "parseInt16 s =
     (if s = [] then None
      else fold (\<lambda>c acc. case acc of
                            None \<Rightarrow> None
                          | Some a \<Rightarrow> (case hexDigit c of
                                        None \<Rightarrow> None
                                      | Some d \<Rightarrow> Some (16 * a + d)))
             s (Some 0))"

definition substring :: "nat \<Rightarrow> nat \<Rightarrow> string \<Rightarrow> string" where
  \<comment> \<open>\<^verbatim>\<open>s.substring(i, j)\<close> for \<open>i \<le> j\<close>\<close>
  "substring i j s = take (j - i) (drop i s)"

definition digit16 :: "nat \<Rightarrow> char" where
  "digit16 d = ''0123456789abcdef'' ! d"

function toString16 :: "nat \<Rightarrow> string" where
  \<comment> \<open>\<^verbatim>\<open>n.toString(16)\<close> of a non-negative integer\<close>
  "toString16 n = (if n < 16 then [digit16 n] else toString16 (n div 16) @ [digit16 (n mod 16)])"
  by pat_completeness auto
termination
  by (relation "measure (\<lambda>n. n)") auto

declare toString16.simps [simp del]

definition padStart :: "nat \<Rightarrow> char \<Rightarrow> string \<Rightarrow> string" where
  "padStart n c s = replicate (n - length s) c @ s"

definition upperChar :: "char \<Rightarrow> char" where
  \<comment> \<open>upper case of an ASCII letter; every other character is kept\<close>
  "upperChar c =
     (case map_of (zip ''abcdefghijklmnopqrstuvwxyz'' ''ABCDEFGHIJKLMNOPQRSTUVWXYZ'') c of
        None \<Rightarrow> c
      | Some u \<Rightarrow> u)"

definition toUpperCase :: "string \<Rightarrow> string" where
  "toUpperCase s = map upperChar s"

subsection \<open>Coordinates\<close>

definition screenToCanvas :: "vec2 \<Rightarrow> viewport \<Rightarrow> vec2" where
  "screenToCanvas screenPos vp =
     \<lparr>vec_x = (vec_x screenPos - view_x vp) / zoom vp,
      vec_y = (vec_y screenPos - view_y vp) / zoom vp\<rparr>"

definition canvasToScreen :: "vec2 \<Rightarrow> viewport \<Rightarrow> vec2" where
  "canvasToScreen canvasPos vp =
     \<lparr>vec_x = vec_x canvasPos * zoom vp + view_x vp,
      vec_y = vec_y canvasPos * zoom vp + view_y vp\<rparr>"

definition degreesToRadians :: "real \<Rightarrow> real" where
  "degreesToRadians deg = (deg * pi) / 180"

record gradient_coords =
  c_x1 :: real
  c_y1 :: real
  c_x2 :: real
  c_y2 :: real

definition getGradientCoords :: "real \<Rightarrow> gradient_coords" where
  "getGradientCoords angleDeg =
     (let angleRad = degreesToRadians (angleDeg - 90)
      in \<lparr>c_x1 = 0.5 - 0.5 * cos angleRad,
          c_y1 = 0.5 - 0.5 * sin angleRad,
          c_x2 = 0.5 + 0.5 * cos angleRad,
          c_y2 = 0.5 + 0.5 * sin angleRad\<rparr>)"

definition getLocalPoint :: "vec2 \<Rightarrow> viewport \<Rightarrow> layer \<Rightarrow> vec2" where
  "getLocalPoint screenPos vp layer =
     (let cp = screenToCanvas screenPos vp;
          dx = vec_x cp - layer_x layer;
          dy = vec_y cp - layer_y layer;
          rad = - degreesToRadians (rotation layer);
          lx = dx * cos rad - dy * sin rad;
          ly = dx * sin rad + dy * cos rad
      in \<lparr>vec_x = lx / width layer, vec_y = ly / height layer\<rparr>)"

subsection \<open>Hex colours in sRGB space\<close>

record rgba =
  rgba_r :: real
  rgba_g :: real
  rgba_b :: real
  rgba_a :: real

definition parseHex :: "string \<Rightarrow> rgba option" where
  \<comment> \<open>the local \<^verbatim>\<open>parseHex\<close> of \<^verbatim>\<open>interpolateColor\<close>\<close>
  "parseHex c =
     (let hex = remove1 CHR ''#'' c
      in if length hex = 3 then
           (case (parseInt16 [hex ! 0, hex ! 0], parseInt16 [hex ! 1, hex ! 1],
                  parseInt16 [hex ! 2, hex ! 2]) of
              (Some r, Some g, Some b) \<Rightarrow>
                Some \<lparr>rgba_r = real r, rgba_g = real g, rgba_b = real b, rgba_a = 1\<rparr>
            | _ \<Rightarrow> None)
         else if length hex = 6 then
           (case (parseInt16 (substring 0 2 hex), parseInt16 (substring 2 4 hex),
                  parseInt16 (substring 4 6 hex)) of
              (Some r, Some g, Some b) \<Rightarrow>
                Some \<lparr>rgba_r = real r, rgba_g = real g, rgba_b = real b, rgba_a = 1\<rparr>
            | _ \<Rightarrow> None)
         else if length hex = 8 then
           (case (parseInt16 (substring 0 2 hex), parseInt16 (substring 2 4 hex),
                  parseInt16 (substring 4 6 hex), parseInt16 (substring 6 8 hex)) of
              (Some r, Some g, Some b, Some a) \<Rightarrow>
                Some \<lparr>rgba_r = real r, rgba_g = real g, rgba_b = real b,
                      rgba_a = real a / 255\<rparr>
            | _ \<Rightarrow> None)
         else Some \<lparr>rgba_r = 0, rgba_g = 0, rgba_b = 0, rgba_a = 1\<rparr>)"

definition toHex :: "int \<Rightarrow> string" where
  \<comment> \<open>the local \<^verbatim>\<open>toHex\<close> of \<^verbatim>\<open>interpolateColor\<close>: lower-case digits\<close>
  "toHex n = padStart 2 CHR ''0'' (toString16 (nat (min 255 (max 0 n))))"

definition interpolateColor :: "string \<Rightarrow> string \<Rightarrow> real \<Rightarrow> string option" where
  "interpolateColor color1 color2 factor =
     (case (parseHex color1, parseHex color2) of
        (Some c1, Some c2) \<Rightarrow>
          (let r = js_round (rgba_r c1 + (rgba_r c2 - rgba_r c1) * factor);
               g = js_round (rgba_g c1 + (rgba_g c2 - rgba_g c1) * factor);
               b = js_round (rgba_b c1 + (rgba_b c2 - rgba_b c1) * factor);
               a = rgba_a c1 + (rgba_a c2 - rgba_a c1) * factor
           in if a \<ge> 0.999 then Some (''#'' @ toHex r @ toHex g @ toHex b)
              else Some (''#'' @ toHex r @ toHex g @ toHex b @ toHex (js_round (a * 255))))
      | _ \<Rightarrow> None)"

subsection \<open>Projection of a point onto the gradient\<close>

definition gradientAxis :: "gradient \<Rightarrow> real \<Rightarrow> real \<Rightarrow> vec2 \<times> vec2" where
  \<comment> \<open>the start and end points in pixels, \<^verbatim>\<open>(ax, ay)\<close> and \<^verbatim>\<open>(bx, by)\<close>, that
      \<^verbatim>\<open>getGradientT\<close> computes for a radial or linear gradient\<close>
  "gradientAxis gradient layerWidth layerHeight =
     (let center = center gradient;
          radiusPos =
            (case radius gradient of
               None \<Rightarrow> \<lparr>vec_x = 0.5, vec_y = 1\<rparr>
             | Some rd \<Rightarrow>
                 (let rad = degreesToRadians (angle gradient - 90)
                  in \<lparr>vec_x = vec_x center + rd * cos rad,
                      vec_y = vec_y center + rd * sin rad\<rparr>))
      in if gtype gradient = Radial then
           (\<lparr>vec_x = vec_x center * layerWidth, vec_y = vec_y center * layerHeight\<rparr>,
            \<lparr>vec_x = vec_x radiusPos * layerWidth, vec_y = vec_y radiusPos * layerHeight\<rparr>)
         else
           (let (start, end) =
                  (case (gstart gradient, gend gradient) of
                     (Some s, Some e) \<Rightarrow> (s, e)
                   | _ \<Rightarrow>
                       (let coords = getGradientCoords (angle gradient)
                        in (\<lparr>vec_x = c_x1 coords, vec_y = c_y1 coords\<rparr>,
                            \<lparr>vec_x = c_x2 coords, vec_y = c_y2 coords\<rparr>)))
            in (\<lparr>vec_x = vec_x start * layerWidth, vec_y = vec_y start * layerHeight\<rparr>,
                \<lparr>vec_x = vec_x end * layerWidth, vec_y = vec_y end * layerHeight\<rparr>)))"

definition projectOnto :: "vec2 \<Rightarrow> vec2 \<Rightarrow> real \<Rightarrow> real \<Rightarrow> real option" where
  \<comment> \<open>the projection of \<^verbatim>\<open>(mx, my)\<close> onto the vector from \<open>a\<close> to \<open>b\<close>, as both
      \<^verbatim>\<open>getGradientT\<close> and \<^verbatim>\<open>getProjectionT\<close> compute it; \<open>None\<close> when
      \<^verbatim>\<open>lenSq === 0\<close>, where both return 0\<close>
  "projectOnto a b mx my =
     (let abx = vec_x b - vec_x a;
          aby = vec_y b - vec_y a;
          apx = mx - vec_x a;
          apy = my - vec_y a;
          lenSq = abx * abx + aby * aby
      in if lenSq = 0 then None else Some ((apx * abx + apy * aby) / lenSq))"

definition conicT :: "gradient \<Rightarrow> real \<Rightarrow> real \<Rightarrow> real \<Rightarrow> real \<Rightarrow> real" where
  \<comment> \<open>the \<^verbatim>\<open>conic\<close> branch, which \<^verbatim>\<open>getGradientT\<close> and \<^verbatim>\<open>getProjectionT\<close>
      share word for word\<close>
  "conicT gradient mx my layerWidth layerHeight =
     (let dx = mx - vec_x (center gradient) * layerWidth;
          dy = my - vec_y (center gradient) * layerHeight;
          angleRad = atan2 dy dx;
          angleDeg = (angleRad * 180 / pi) + 90;
          angleDeg = js_mod (angleDeg + 360) 360;
          relativeDeg = angleDeg - angle gradient;
          relativeDeg = js_mod (relativeDeg + 360) 360
      in relativeDeg / 360)"

definition getGradientT :: "real \<Rightarrow> real \<Rightarrow> gradient \<Rightarrow> real \<Rightarrow> real \<Rightarrow> real" where
  "getGradientT mx my gradient layerWidth layerHeight =
     (if gtype gradient = Conic then conicT gradient mx my layerWidth layerHeight
      else
        (let (a, b) = gradientAxis gradient layerWidth layerHeight
         in case projectOnto a b mx my of
              None \<Rightarrow> 0
            | Some t \<Rightarrow> max 0 (min 1 t)))"

subsection \<open>OKLCH colour math\<close>

record rgb =
  rgb_r :: real
  rgb_g :: real
  rgb_b :: real

record xyz =
  xyz_X :: real
  xyz_Y :: real
  xyz_Z :: real

record oklab =
  lab_L :: real
  lab_a :: real
  lab_b :: real

record oklch =
  lch_L :: real
  lch_C :: real
  lch_H :: real

definition EPS :: real where
  "EPS = 1 / 10 ^ 10"

definition clamp01 :: "real \<Rightarrow> real" where
  "clamp01 v = min 1 (max 0 v)"

definition cbrt :: "real \<Rightarrow> real" where
  "cbrt v = (if v < 0 then - ((- v) powr (1 / 3)) else v powr (1 / 3))"

definition srgbToLinear :: "real \<Rightarrow> real" where
  "srgbToLinear u = (if u \<le> 0.04045 then u / 12.92 else ((u + 0.055) / 1.055) powr 2.4)"

definition linearToSrgb :: "real \<Rightarrow> real" where
  "linearToSrgb u = (if u \<le> 0.0031308 then 12.92 * u else 1.055 * u powr (1 / 2.4) - 0.055)"

definition linearSrgbToXyz :: "rgb \<Rightarrow> xyz" where
  "linearSrgbToXyz rgbLin =
     (let r = rgb_r rgbLin; g = rgb_g rgbLin; b = rgb_b rgbLin
      in \<lparr>xyz_X = 0.4122214708 * r + 0.5363325363 * g + 0.0514459929 * b,
          xyz_Y = 0.2119034982 * r + 0.6806995451 * g + 0.1073969566 * b,
          xyz_Z = 0.0883024619 * r + 0.2817188376 * g + 0.6299787005 * b\<rparr>)"

definition xyzToLinearSrgb :: "xyz \<Rightarrow> rgb" where
  "xyzToLinearSrgb v =
     (let X = xyz_X v; Y = xyz_Y v; Z = xyz_Z v
      in \<lparr>rgb_r = 3.2409699419 * X - 1.5373831776 * Y - 0.4986107603 * Z,
          rgb_g = - 0.9692436363 * X + 1.8759675015 * Y + 0.0415550574 * Z,
          rgb_b = 0.0556300797 * X - 0.2039769589 * Y + 1.0569715142 * Z\<rparr>)"

definition xyzToOklab :: "xyz \<Rightarrow> oklab" where
  "xyzToOklab v =
     (let X = xyz_X v; Y = xyz_Y v; Z = xyz_Z v;
          l = 0.8189330101 * X + 0.3618667424 * Y - 0.1288597137 * Z;
          m = 0.0329845436 * X + 0.9293118715 * Y + 0.0361456387 * Z;
          s = 0.0482003018 * X + 0.2643662691 * Y + 0.6338517070 * Z;
          l' = cbrt l;
          m' = cbrt m;
          s' = cbrt s
      in \<lparr>lab_L = 0.2104542553 * l' + 0.7936177850 * m' - 0.0040720468 * s',
          lab_a = 1.9779984951 * l' - 2.4285922050 * m' + 0.4505937099 * s',
          lab_b = 0.0259040371 * l' + 0.7827717662 * m' - 0.8086757660 * s'\<rparr>)"

definition oklabToXyz :: "oklab \<Rightarrow> xyz" where
  "oklabToXyz lab =
     (let L = lab_L lab; a = lab_a lab; b = lab_b lab;
          l' = L + 0.3963377774 * a + 0.2158037573 * b;
          m' = L - 0.1055613458 * a - 0.0638541728 * b;
          s' = L - 0.0894841775 * a - 1.2914855480 * b;
          l = l' * l' * l';
          m = m' * m' * m';
          s = s' * s' * s'
      in \<lparr>xyz_X = 1.2270138511 * l - 0.5577999807 * m + 0.2812561490 * s,
          xyz_Y = - 0.0405801784 * l + 1.1122568696 * m - 0.0716766787 * s,
          xyz_Z = - 0.0763812845 * l - 0.4214819784 * m + 1.5861632204 * s\<rparr>)"

definition oklabToOklch :: "oklab \<Rightarrow> oklch" where
  "oklabToOklch lab =
     (let C = sqrt (lab_a lab * lab_a lab + lab_b lab * lab_b lab);
          H = (if C > EPS then
                 (let H1 = (atan2 (lab_b lab) (lab_a lab) * 180) / pi
                  in if H1 < 0 then H1 + 360 else H1)
               else 0)
      in \<lparr>lch_L = lab_L lab, lch_C = C, lch_H = H\<rparr>)"

definition oklchToOklab :: "oklch \<Rightarrow> oklab" where
  "oklchToOklab lch =
     (let hRad = (lch_H lch * pi) / 180
      in \<lparr>lab_L = lch_L lch, lab_a = lch_C lch * cos hRad, lab_b = lch_C lch * sin hRad\<rparr>)"

definition srgbEncodedToOklch :: "rgb \<Rightarrow> oklch" where
  "srgbEncodedToOklch c =
     (let lin = \<lparr>rgb_r = srgbToLinear (rgb_r c), rgb_g = srgbToLinear (rgb_g c),
                 rgb_b = srgbToLinear (rgb_b c)\<rparr>;
          v = linearSrgbToXyz lin;
          lab = xyzToOklab v
      in oklabToOklch lab)"

definition oklchToSrgbEncoded :: "oklch \<Rightarrow> rgb" where
  "oklchToSrgbEncoded lch =
     (let lab = oklchToOklab lch;
          v = oklabToXyz lab;
          lin = xyzToLinearSrgb v
      in \<lparr>rgb_r = linearToSrgb (rgb_r lin), rgb_g = linearToSrgb (rgb_g lin),
          rgb_b = linearToSrgb (rgb_b lin)\<rparr>)"

definition isInGamutSrgbEncoded :: "rgb \<Rightarrow> bool" where
  "isInGamutSrgbEncoded c =
     (let e = 0.00005
      in rgb_r c \<ge> - e \<and> rgb_r c \<le> 1 + e \<and>
         rgb_g c \<ge> - e \<and> rgb_g c \<le> 1 + e \<and>
         rgb_b c \<ge> - e \<and> rgb_b c \<le> 1 + e)"

text \<open>
  The loop of \<^verbatim>\<open>clampOklchToSrgbGamut\<close>: the first argument counts the iterations that
  remain, the others are \<^verbatim>\<open>lo\<close>, \<^verbatim>\<open>hi\<close> and \<^verbatim>\<open>best\<close>. The result is the final
  \<^verbatim>\<open>best\<close>.
\<close>

fun gamutSearch :: "nat \<Rightarrow> oklch \<Rightarrow> real \<Rightarrow> real \<Rightarrow> real \<Rightarrow> real" where
  "gamutSearch 0 lch lo hi best = best"
| "gamutSearch (Suc n) lch lo hi best =
     (let mid = (lo + hi) / 2;
          test = \<lparr>lch_L = lch_L lch, lch_C = mid, lch_H = lch_H lch\<rparr>;
          c = oklchToSrgbEncoded test
      in if isInGamutSrgbEncoded c then gamutSearch n lch mid hi mid
         else gamutSearch n lch lo mid best)"

definition clampOklchToSrgbGamut :: "oklch \<Rightarrow> nat \<Rightarrow> oklch" where
  \<comment> \<open>the second argument is \<^verbatim>\<open>maxIter\<close>, 20 when the caller omits it\<close>
  "clampOklchToSrgbGamut lch maxIter =
     (let encoded = oklchToSrgbEncoded lch
      in if isInGamutSrgbEncoded encoded then lch
         else lch\<lparr>lch_C := gamutSearch maxIter lch 0 (lch_C lch) 0\<rparr>)"

definition toHexUpper :: "int \<Rightarrow> string" where
  \<comment> \<open>the local \<^verbatim>\<open>toHex\<close> of \<^verbatim>\<open>oklchToHex\<close>, on a rounded channel in 0..255\<close>
  "toHexUpper n = toUpperCase (padStart 2 CHR ''0'' (toString16 (nat n)))"

definition oklchToHex :: "oklch \<Rightarrow> real \<Rightarrow> string" where
  \<comment> \<open>the second argument is \<^verbatim>\<open>alpha\<close>, 1 when the caller omits it\<close>
  "oklchToHex lch alpha =
     (let clamped = clampOklchToSrgbGamut lch 20;
          c = oklchToSrgbEncoded clamped;
          r = js_round (clamp01 (rgb_r c) * 255);
          g = js_round (clamp01 (rgb_g c) * 255);
          b = js_round (clamp01 (rgb_b c) * 255);
          hex = ''#'' @ toHexUpper r @ toHexUpper g @ toHexUpper b
      in if alpha \<ge> 0.999 then hex
         else hex @ toHexUpper (js_round (clamp01 alpha * 255)))"

definition hexToRgbStruct :: "string \<Rightarrow> rgb option" where
  "hexToRgbStruct hex =
     (let h = remove1 CHR ''#'' hex
      in if length h = 3 then
           (case (parseInt16 [h ! 0, h ! 0], parseInt16 [h ! 1, h ! 1],
                  parseInt16 [h ! 2, h ! 2]) of
              (Some r, Some g, Some b) \<Rightarrow>
                Some \<lparr>rgb_r = real r / 255, rgb_g = real g / 255, rgb_b = real b / 255\<rparr>
            | _ \<Rightarrow> None)
         else
           (case (parseInt16 (substring 0 2 h), parseInt16 (substring 2 4 h),
                  parseInt16 (substring 4 6 h)) of
              (Some r, Some g, Some b) \<Rightarrow>
                Some \<lparr>rgb_r = real r / 255, rgb_g = real g / 255, rgb_b = real b / 255\<rparr>
            | _ \<Rightarrow> None))"

subsection \<open>Anti-banding resample\<close>

text \<open>
  \<^verbatim>\<open>generateId\<close> draws a random string. The model takes the sequence of strings that
  successive calls return as a function \<open>gen\<close> of the call number, and threads the number
  of calls made so far.
\<close>

definition MIN_OFFSET_DIFF :: real where
  "MIN_OFFSET_DIFF = 0.005"

definition bandSteps :: nat where
  "bandSteps = 8"

definition channelHex :: "real \<Rightarrow> string" where
  \<comment> \<open>\<^verbatim>\<open>Math.round(clamp01(v) * 255).toString(16).padStart(2, '0').toUpperCase()\<close>\<close>
  "channelHex v = toUpperCase (padStart 2 CHR ''0'' (toString16 (nat (js_round (clamp01 v * 255)))))"

definition bandStop ::
  "(nat \<Rightarrow> string) \<Rightarrow> nat \<Rightarrow> gradient_stop \<Rightarrow> gradient_stop \<Rightarrow> rgb \<Rightarrow> rgb \<Rightarrow> nat
     \<Rightarrow> gradient_stop" where
  \<comment> \<open>the body of the inner loop for step \<open>k\<close>; \<open>n\<close> ids were drawn before the loop\<close>
  "bandStop gen n start end lin1 lin2 k =
     (let t = real k / real bandSteps;
          range = offset end - offset start;
          rLin = rgb_r lin1 + (rgb_r lin2 - rgb_r lin1) * t;
          gLin = rgb_g lin1 + (rgb_g lin2 - rgb_g lin1) * t;
          bLin = rgb_b lin1 + (rgb_b lin2 - rgb_b lin1) * t;
          r = linearToSrgb rLin;
          g = linearToSrgb gLin;
          b = linearToSrgb bLin;
          hex = ''#'' @ channelHex r @ channelHex g @ channelHex b;
          opacity' = opacity start + (opacity end - opacity start) * t
      in \<lparr>stop_id = gen (n + k - 1), offset = offset start + range * t, color = hex,
          opacity = opacity', midpoint = None\<rparr>)"

definition bandSegment ::
  "(nat \<Rightarrow> string) \<Rightarrow> nat \<Rightarrow> gradient_stop \<Rightarrow> gradient_stop \<Rightarrow> gradient_stop list option" where
  \<comment> \<open>what one pass of the outer loop pushes after \<open>start\<close>; \<open>None\<close> when a colour is
      not well-formed hexadecimal text\<close>
  "bandSegment gen n start end =
     (let range = offset end - offset start
      in if range < MIN_OFFSET_DIFF then Some []
         else
           (case (hexToRgbStruct (color start), hexToRgbStruct (color end)) of
              (Some rgb1, Some rgb2) \<Rightarrow>
                (let lin1 = \<lparr>rgb_r = srgbToLinear (rgb_r rgb1), rgb_g = srgbToLinear (rgb_g rgb1),
                              rgb_b = srgbToLinear (rgb_b rgb1)\<rparr>;
                     lin2 = \<lparr>rgb_r = srgbToLinear (rgb_r rgb2), rgb_g = srgbToLinear (rgb_g rgb2),
                              rgb_b = srgbToLinear (rgb_b rgb2)\<rparr>;
                     dist = \<bar>rgb_r rgb1 - rgb_r rgb2\<bar> + \<bar>rgb_g rgb1 - rgb_g rgb2\<bar>
                              + \<bar>rgb_b rgb1 - rgb_b rgb2\<bar>
                 in if dist < 0.05 then Some []
                    else Some (map (bandStop gen n start end lin1 lin2) [1..<bandSteps]))
            | _ \<Rightarrow> None))"

fun bandLoop :: "(nat \<Rightarrow> string) \<Rightarrow> nat \<Rightarrow> gradient_stop list \<Rightarrow> gradient_stop list option" where
  \<comment> \<open>the outer loop over adjacent pairs, then the push of the final stop; the caller
      never passes the empty list\<close>
  "bandLoop gen n [] = Some []"
| "bandLoop gen n [s] = Some [s]"
| "bandLoop gen n (s # e # rest) =
     (case bandSegment gen n s e of
        None \<Rightarrow> None
      | Some ins \<Rightarrow>
          (case bandLoop gen (n + length ins) (e # rest) of
             None \<Rightarrow> None
           | Some r \<Rightarrow> Some (s # ins @ r)))"

definition fixGradientBanding ::
  "(nat \<Rightarrow> string) \<Rightarrow> gradient_stop list \<Rightarrow> gradient_stop list option" where
  "fixGradientBanding gen stops0 =
     (let sorted' = sortByOffset stops0
      in if length sorted' < 2 then Some stops0 else bandLoop gen 0 sorted')"

subsection \<open>Well-formed hex colours\<close>



text \<open>
  The condition under which a pair of adjacent stops is left alone, and a stop list with a
  hard edge used as an example.
\<close>

definition hardEdgeStops :: "gradient_stop list" where
  "hardEdgeStops =
     [\<lparr>stop_id = ''a'', offset = 0.5, color = ''#000000'', opacity = 1, midpoint = None\<rparr>,
      \<lparr>stop_id = ''b'', offset = 0.502, color = ''#FFFFFF'', opacity = 1, midpoint = None\<rparr>]"

text \<open>
  Two id sequences and a stop list for the ids of inserted stops. \<^verbatim>\<open>generateId\<close> is
  \<^verbatim>\<open>Math.random().toString(36).substr(2, 9)\<close>: when \<^verbatim>\<open>Math.random()\<close> returns 0.5 the string is
  \<^verbatim>\<open>0.i\<close> and the id is \<^verbatim>\<open>i\<close>. \<open>sampleIds\<close> returns a different id at every call,
  \<open>repeatedIds\<close> the id \<^verbatim>\<open>i\<close> at every call, and the first stop of \<open>collidingStops\<close> has the
  id \<^verbatim>\<open>i\<close> already.
\<close>

definition sampleIds :: "nat \<Rightarrow> string" where
  "sampleIds n = replicate (Suc n) CHR ''g''"

definition repeatedIds :: "nat \<Rightarrow> string" where
  "repeatedIds n = ''i''"

definition collidingStops :: "gradient_stop list" where
  "collidingStops =
     [\<lparr>stop_id = ''i'', offset = 0, color = ''#000000'', opacity = 1, midpoint = None\<rparr>,
      \<lparr>stop_id = ''b'', offset = 1, color = ''#FFFFFF'', opacity = 1, midpoint = None\<rparr>]"

definition belowThreshold :: "gradient_stop \<Rightarrow> gradient_stop \<Rightarrow> bool" where
  "belowThreshold s e =
     (offset e - offset s < 0.005 \<or>
      (case (hexToRgbStruct (color s), hexToRgbStruct (color e)) of
         (Some c1, Some c2) \<Rightarrow>
           \<bar>rgb_r c1 - rgb_r c2\<bar> + \<bar>rgb_g c1 - rgb_g c2\<bar> + \<bar>rgb_b c1 - rgb_b c2\<bar> < 0.05
       | _ \<Rightarrow> False))"

section \<open>Gradient overlay (GradientOverlay.tsx)\<close>

text \<open>
  The component reads \<^verbatim>\<open>layer\<close>, \<^verbatim>\<open>viewport\<close> and \<^verbatim>\<open>gradient = layer.fill\<close> when it
  renders; the handlers close over these values. Here they are arguments. A handler returns
  the new component state and the store actions it calls, in order.
\<close>

datatype drag_state =
    MoveStart string
  | MoveEnd string
  | MoveStop string
  | MoveMidpoint string real real
      \<comment> \<open>\<^verbatim>\<open>stopId\<close>, \<^verbatim>\<open>startStopOffset\<close>, \<^verbatim>\<open>endStopOffset\<close>\<close>
  | PotentialStop real real real bool
      \<comment> \<open>\<^verbatim>\<open>startX\<close>, \<^verbatim>\<open>startY\<close>, \<^verbatim>\<open>t\<close>, \<^verbatim>\<open>valid\<close>\<close>
  | Rotate vec2 bool real real
      \<comment> \<open>\<^verbatim>\<open>center\<close>, \<^verbatim>\<open>isPointBased\<close>, \<^verbatim>\<open>currentLen\<close>, \<^verbatim>\<open>startAngle\<close>\<close>
  | MoveCenter

record drag_ref =
  active :: bool
  hasMoved :: bool
  startPos :: vec2
  dragState :: "drag_state option"

record overlay =
  dragRef :: drag_ref
  selectedStopId :: "string option"
  isRotating :: bool

text \<open>The pointer-down targets, with the arguments the element passes to \<^verbatim>\<open>handlePointerDown\<close>.\<close>

datatype hit_target =
    HitStop string real      \<comment> \<open>\<^verbatim>\<open>stop.id\<close>, \<^verbatim>\<open>stop.offset\<close>\<close>
  | HitMidpoint string real real
  | HitLine
  | HitRotate
  | HitCenter

datatype store_call =
    CallSetInteractionMode interaction_mode
  | CallUpdateLayerGradient string gradient_updates
  | CallUpdateGradientStop string string stop_updates
  | CallAddGradientStop string real "string option"
      \<comment> \<open>the colour is \<open>None\<close> when a stop colour is not well-formed hexadecimal text\<close>

definition idleDragRef :: drag_ref where
  "idleDragRef =
     \<lparr>active = False, hasMoved = False, startPos = \<lparr>vec_x = 0, vec_y = 0\<rparr>, dragState = None\<rparr>"

fun colorBetween :: "real \<Rightarrow> gradient_stop list \<Rightarrow> string \<Rightarrow> string option" where
  \<comment> \<open>the loop of \<^verbatim>\<open>getGradientColorAt\<close>; the last argument is the colour returned when
      no pair brackets \<open>t\<close>\<close>
  "colorBetween t (s1 # s2 # rest) fallback =
     (if t \<ge> offset s1 \<and> t \<le> offset s2 then
        (let range = offset s2 - offset s1
         in if range = 0 then Some (color s1)
            else interpolateColor (color s1) (color s2) ((t - offset s1) / range))
      else colorBetween t (s2 # rest) fallback)"
| "colorBetween t rest fallback = Some fallback"

definition getGradientColorAt :: "real \<Rightarrow> gradient_stop list \<Rightarrow> string option" where
  "getGradientColorAt t stops0 =
     (let sorted' = sortByOffset stops0
      in case sorted' of
           [] \<Rightarrow> Some ''#000000''
         | s # rest \<Rightarrow>
             if t \<le> offset s then Some (color s)
             else if t \<ge> offset (last sorted') then Some (color (last sorted'))
             else colorBetween t sorted' (color s))"

definition renderStart :: "gradient \<Rightarrow> vec2" where
  "renderStart g =
     (case gstart g of
        Some s \<Rightarrow> s
      | None \<Rightarrow> (let derivedCoords = getGradientCoords (angle g)
                 in \<lparr>vec_x = c_x1 derivedCoords, vec_y = c_y1 derivedCoords\<rparr>))"

definition renderEnd :: "gradient \<Rightarrow> vec2" where
  "renderEnd g =
     (case gend g of
        Some e \<Rightarrow> e
      | None \<Rightarrow> (let derivedCoords = getGradientCoords (angle g)
                 in \<lparr>vec_x = c_x2 derivedCoords, vec_y = c_y2 derivedCoords\<rparr>))"

definition radiusPos :: "gradient \<Rightarrow> vec2" where
  "radiusPos g =
     (let radius' = (case radius g of Some r \<Rightarrow> r | None \<Rightarrow> 0.5);
          radialAngleRad = degreesToRadians (angle g - 90)
      in \<lparr>vec_x = vec_x (center g) + radius' * cos radialAngleRad,
          vec_y = vec_y (center g) + radius' * sin radialAngleRad\<rparr>)"

definition rotCenter :: "layer \<Rightarrow> gradient \<Rightarrow> vec2" where
  "rotCenter layer g =
     (case gtype g of
        Linear \<Rightarrow>
          (let sx = vec_x (renderStart g) * width layer;
               sy = vec_y (renderStart g) * height layer;
               ex = vec_x (renderEnd g) * width layer;
               ey = vec_y (renderEnd g) * height layer
           in \<lparr>vec_x = (sx + ex) / 2, vec_y = (sy + ey) / 2\<rparr>)
      | Conic \<Rightarrow> \<lparr>vec_x = vec_x (center g) * width layer, vec_y = vec_y (center g) * height layer\<rparr>
      | Radial \<Rightarrow> \<lparr>vec_x = vec_x (center g) * width layer, vec_y = vec_y (center g) * height layer\<rparr>)"

definition overlayAxis :: "layer \<Rightarrow> gradient \<Rightarrow> vec2 \<times> vec2" where
  \<comment> \<open>the points \<^verbatim>\<open>(ax, ay)\<close> and \<^verbatim>\<open>(bx, by)\<close> of \<^verbatim>\<open>getProjectionT\<close>\<close>
  "overlayAxis layer g =
     (if gtype g = Radial then
        (\<lparr>vec_x = vec_x (center g) * width layer, vec_y = vec_y (center g) * height layer\<rparr>,
         \<lparr>vec_x = vec_x (radiusPos g) * width layer,
          vec_y = vec_y (radiusPos g) * height layer\<rparr>)
      else
        (\<lparr>vec_x = vec_x (renderStart g) * width layer,
          vec_y = vec_y (renderStart g) * height layer\<rparr>,
         \<lparr>vec_x = vec_x (renderEnd g) * width layer,
          vec_y = vec_y (renderEnd g) * height layer\<rparr>))"

definition getProjectionT :: "layer \<Rightarrow> gradient \<Rightarrow> real \<Rightarrow> real \<Rightarrow> real" where
  "getProjectionT layer g mx my =
     (if gtype g = Conic then conicT g mx my (width layer) (height layer)
      else
        (let (a, b) = overlayAxis layer g
         in case projectOnto a b mx my of
              None \<Rightarrow> 0
            | Some t \<Rightarrow> t))"

definition handlePointerDown ::
  "string \<Rightarrow> layer \<Rightarrow> viewport \<Rightarrow> gradient \<Rightarrow> vec2 \<Rightarrow> hit_target \<Rightarrow> overlay
     \<Rightarrow> overlay \<times> store_call list" where
  \<comment> \<open>the fifth argument is \<^verbatim>\<open>(e.clientX, e.clientY)\<close>\<close>
  "handlePointerDown layerId layer vp g client hit ov =
     (let (st, ov1) =
            (case hit of
               HitRotate \<Rightarrow>
                 (let isPointBased = (gtype g = Linear \<and> gstart g \<noteq> None \<and> gend g \<noteq> None);
                      dx = (vec_x (renderEnd g) - vec_x (renderStart g)) * width layer;
                      dy = (vec_y (renderEnd g) - vec_y (renderStart g)) * height layer;
                      currentLen = sqrt (dx * dx + dy * dy)
                  in (Rotate (rotCenter layer g) isPointBased currentLen (angle g),
                      ov\<lparr>isRotating := True\<rparr>))
             | HitCenter \<Rightarrow> (MoveCenter, ov)
             | HitStop sid off \<Rightarrow>
                 ((if gtype g \<noteq> Conic then
                     (if \<bar>off - 0\<bar> < 0.001 then MoveStart sid
                      else if \<bar>off - 1\<bar> < 0.001 then MoveEnd sid
                      else MoveStop sid)
                   else MoveStop sid),
                  (if sid \<noteq> [] then ov\<lparr>selectedStopId := Some sid\<rparr> else ov))
             | HitMidpoint sid startStopOffset endStopOffset \<Rightarrow>
                 (MoveMidpoint sid startStopOffset endStopOffset, ov)
             | HitLine \<Rightarrow>
                 (let mousePos = getLocalPoint client vp layer;
                      mx = vec_x mousePos * width layer;
                      my = vec_y mousePos * height layer;
                      t = max 0.01 (min 0.99 (getProjectionT layer g mx my))
                  in (PotentialStop (vec_x client) (vec_y client) t True, ov)))
      in (ov1\<lparr>dragRef := \<lparr>active = True, hasMoved = False, startPos = client,
                            dragState = Some st\<rparr>\<rparr>,
          [CallSetInteractionMode DraggingGradient]))"

definition rotateUpdates :: "layer \<Rightarrow> gradient \<Rightarrow> vec2 \<Rightarrow> bool \<Rightarrow> real \<Rightarrow> real \<Rightarrow> real
    \<Rightarrow> gradient_updates" where
  \<comment> \<open>the \<^verbatim>\<open>rotate\<close> branch of \<^verbatim>\<open>handlePointerMove\<close>: the argument of
      \<^verbatim>\<open>updateLayerGradient\<close>\<close>
  "rotateUpdates layer g c isPointBased currentLen mx my =
     (let dX = mx - vec_x c;
          dY = my - vec_y c;
          rad = atan2 dY dX;
          cssDeg = (rad * 180 / pi) + 90;
          cssDeg = js_mod (cssDeg + 360) 360;
          updates = no_gradient_updates\<lparr>up_angle := Some cssDeg\<rparr>
      in if isPointBased \<and> gtype g = Linear then
           (let halfLen = currentLen / 2;
                cos' = cos rad;
                sin' = sin rad;
                vx = cos' * halfLen;
                vy = sin' * halfLen;
                nsx = vec_x c - vx;
                nsy = vec_y c - vy;
                nex = vec_x c + vx;
                ney = vec_y c + vy
            in updates\<lparr>up_start := Some (Some \<lparr>vec_x = nsx / width layer,
                                                 vec_y = nsy / height layer\<rparr>),
                       up_end := Some (Some \<lparr>vec_x = nex / width layer,
                                               vec_y = ney / height layer\<rparr>)\<rparr>)
         else updates)"

definition handlePointerMove ::
  "string \<Rightarrow> layer \<Rightarrow> viewport \<Rightarrow> gradient \<Rightarrow> vec2 \<Rightarrow> overlay \<Rightarrow> overlay \<times> store_call list" where
  "handlePointerMove layerId layer vp g client ov =
     (case (active (dragRef ov), dragState (dragRef ov)) of
        (True, Some st) \<Rightarrow>
          (let dx = vec_x client - vec_x (startPos (dragRef ov));
               dy = vec_y client - vec_y (startPos (dragRef ov));
               moved = (if dx * dx + dy * dy > 16 then True else hasMoved (dragRef ov));
               ov1 = ov\<lparr>dragRef := (dragRef ov)\<lparr>hasMoved := moved\<rparr>\<rparr>;
               mousePos = getLocalPoint client vp layer;
               mx = vec_x mousePos * width layer;
               my = vec_y mousePos * height layer
           in case st of
                Rotate c isPointBased currentLen startAngle \<Rightarrow>
                  (ov1, [CallUpdateLayerGradient layerId
                           (rotateUpdates layer g c isPointBased currentLen mx my)])
              | PotentialStop sx sy t valid \<Rightarrow>
                  (if moved
                   then (ov1\<lparr>dragRef := (dragRef ov1)
                               \<lparr>dragState := Some (PotentialStop sx sy t False)\<rparr>\<rparr>, [])
                   else (ov1, []))
              | MoveCenter \<Rightarrow>
                  (ov1, [CallUpdateLayerGradient layerId
                           (no_gradient_updates\<lparr>up_center := Some mousePos\<rparr>)])
              | MoveStart sid \<Rightarrow>
                  (case gtype g of
                     Linear \<Rightarrow>
                       (ov1, [CallUpdateLayerGradient layerId
                                (no_gradient_updates\<lparr>up_start := Some (Some mousePos),
                                                      up_end := Some (gend g)\<rparr>)])
                   | Radial \<Rightarrow>
                       (ov1, [CallUpdateLayerGradient layerId
                                (no_gradient_updates\<lparr>up_center := Some mousePos\<rparr>)])
                   | Conic \<Rightarrow> (ov1, []))
              | MoveEnd sid \<Rightarrow>
                  (case gtype g of
                     Linear \<Rightarrow>
                       (ov1, [CallUpdateLayerGradient layerId
                                (no_gradient_updates\<lparr>up_end := Some (Some mousePos),
                                                      up_start := Some (gstart g)\<rparr>)])
                   | Radial \<Rightarrow>
                       (let distPx = sqrt ((mx - vec_x (center g) * width layer) ^ 2
                                           + (my - vec_y (center g) * height layer) ^ 2);
                            newRadius = distPx / width layer
                        in (ov1, [CallUpdateLayerGradient layerId
                                    (no_gradient_updates\<lparr>up_radius := Some (Some newRadius)\<rparr>)]))
                   | Conic \<Rightarrow> (ov1, []))
              | MoveStop sid \<Rightarrow>
                  (let t = getProjectionT layer g mx my;
                       t = (if gtype g \<noteq> Conic then max 0.01 (min 0.99 t) else t)
                   in (ov1, [CallUpdateGradientStop layerId sid
                               (no_stop_updates\<lparr>u_offset := Some t\<rparr>)]))
              | MoveMidpoint sid startStopOffset endStopOffset \<Rightarrow>
                  (let t = getProjectionT layer g mx my;
                       range = endStopOffset - startStopOffset;
                       localT =
                         (if gtype g = Conic then
                            (let range = (if range < 0 then range + 1 else range);
                                 relT = t - startStopOffset;
                                 relT = (if relT < 0 then relT + 1 else relT)
                             in relT / range)
                          else if range > 0.001 then (t - startStopOffset) / range
                          else 0.5);
                       localT = max 0.1 (min 0.9 localT)
                   in (ov1, [CallUpdateGradientStop layerId sid
                               (no_stop_updates\<lparr>u_midpoint := Some (Some localT)\<rparr>)])))
      | _ \<Rightarrow> (ov, []))"

definition handlePointerUp ::
  "string \<Rightarrow> gradient \<Rightarrow> overlay \<Rightarrow> overlay \<times> store_call list" where
  "handlePointerUp layerId g ov =
     (if active (dragRef ov) then
        (let (ov1, calls) =
               (if \<not> hasMoved (dragRef ov) then
                  (case dragState (dragRef ov) of
                     Some (MoveStop sid) \<Rightarrow> (ov\<lparr>selectedStopId := Some sid\<rparr>, [])
                   | Some (MoveStart sid) \<Rightarrow> (ov\<lparr>selectedStopId := Some sid\<rparr>, [])
                   | Some (MoveEnd sid) \<Rightarrow> (ov\<lparr>selectedStopId := Some sid\<rparr>, [])
                   | Some (PotentialStop sx sy t valid) \<Rightarrow>
                       (if valid
                        then (ov, [CallAddGradientStop layerId t (getGradientColorAt t (stops g))])
                        else (ov, []))
                   | _ \<Rightarrow> (ov, []))
                else (ov, []))
         in (ov1\<lparr>dragRef := idleDragRef, isRotating := False\<rparr>,
             calls @ [CallSetInteractionMode Idle]))
      else (ov, []))"

text \<open>A layer and a conic gradient used as examples.\<close>

definition artboardWith :: "gradient \<Rightarrow> layer" where
  "artboardWith g =
     \<lparr>layer_id = ''artboard-1'', layer_kind = Artboard, layer_name = ''Main Board'',
      layer_x = 100, layer_y = 100, width = 1200, height = 800, rotation = 0,
      visible = True, fill = GradientFill g, borderRadius = None\<rparr>"

definition conicAbove360 :: gradient where
  "conicAbove360 = INITIAL_GRADIENT\<lparr>gtype := Conic, angle := 450\<rparr>"

text \<open>A sequence of pointer-move events, each at a client position, with no re-render between.\<close>

fun pointerMoves ::
  "string \<Rightarrow> layer \<Rightarrow> viewport \<Rightarrow> gradient \<Rightarrow> vec2 list \<Rightarrow> overlay \<Rightarrow> overlay" where
  "pointerMoves layerId layer vp g [] ov = ov"
| "pointerMoves layerId layer vp g (c # cs) ov =
     pointerMoves layerId layer vp g cs (fst (handlePointerMove layerId layer vp g c ov))"

text \<open>
  The gradient of a layer in the store, the initial values of the component state and of
  the viewport, and component states used as examples.
\<close>

definition gradientOf :: "editor_state \<Rightarrow> string \<Rightarrow> gradient option" where
  "gradientOf state layerId =
     (case layers state layerId of
        None \<Rightarrow> None
      | Some layer \<Rightarrow> (case fill layer of Solid c \<Rightarrow> None | GradientFill g \<Rightarrow> Some g))"

definition initialOverlay :: overlay where
  "initialOverlay = \<lparr>dragRef = idleDragRef, selectedStopId = None, isRotating = False\<rparr>"

definition initialViewport :: viewport where
  "initialViewport = \<lparr>view_x = 0, view_y = 0, zoom = 0.8\<rparr>"

definition rotatingOverlay :: "gradient \<Rightarrow> overlay" where
  \<comment> \<open>the component after a pointer-down on the rotate handle of the example layer\<close>
  "rotatingOverlay g =
     fst (handlePointerDown ''artboard-1'' (artboardWith g) initialViewport g
            \<lparr>vec_x = 1000, vec_y = 400\<rparr> HitRotate initialOverlay)"

definition pointGradient :: gradient where
  "pointGradient =
     INITIAL_GRADIENT\<lparr>gstart := Some \<lparr>vec_x = 0, vec_y = 0.5\<rparr>,
                       gend := Some \<lparr>vec_x = 1, vec_y = 0.5\<rparr>\<rparr>"

definition draggingStopOverlay :: "gradient \<Rightarrow> overlay" where
  \<comment> \<open>the component after a pointer-down on the middle stop of the example layer\<close>
  "draggingStopOverlay g =
     fst (handlePointerDown ''artboard-1'' (artboardWith g) initialViewport g
            \<lparr>vec_x = 700, vec_y = 500\<rparr> (HitStop ''init-2'' 0.5) initialOverlay)"

section \<open>Stop list engine: removal and update\<close>

lemma stopsOf_Some:
  "stopsOf st lid = Some ss \<longleftrightarrow>
     (\<exists>l g. layers st lid = Some l \<and> fill l = GradientFill g \<and> stops g = ss)"
  by (auto simp: stopsOf_def split: option.splits fill.splits)

lemma layers_saveSnapshot: "layers (saveSnapshot st) = layers st"
  by (simp add: saveSnapshot_def Let_def)

lemma stopsOf_saveSnapshot: "stopsOf (saveSnapshot st) lid = stopsOf st lid"
  by (simp add: stopsOf_def layers_saveSnapshot)

lemma stopsOf_removeGradientStop:
  assumes "stopsOf st lid = Some ss"
  shows "stopsOf (removeGradientStop lid sid st) lid =
           Some (if length ss \<le> 2 then ss else filter (\<lambda>s. stop_id s \<noteq> sid) ss)"
proof -
  from assms obtain l g where lg: "layers st lid = Some l" "fill l = GradientFill g" "stops g = ss"
    by (auto simp: stopsOf_Some)
  then show ?thesis
    by (simp add: removeGradientStop_def Let_def layers_saveSnapshot stopsOf_def)
qed

lemma filter_absent_id:
  "sid \<notin> set (map stop_id ss) \<Longrightarrow> filter (\<lambda>s. stop_id s \<noteq> sid) ss = ss"
  by (induction ss) auto

lemma length_filter_distinct_id:
  "distinct (map stop_id ss) \<Longrightarrow> length ss \<le> Suc (length (filter (\<lambda>s. stop_id s \<noteq> sid) ss))"
proof (induction ss)
  case Nil
  then show ?case by simp
next
  case (Cons a ss)
  show ?case
  proof (cases "stop_id a = sid")
    case True
    with Cons.prems have "sid \<notin> set (map stop_id ss)" by auto
    then have "filter (\<lambda>s. stop_id s \<noteq> sid) ss = ss" by (rule filter_absent_id)
    with True show ?thesis by simp
  next
    case False
    with Cons show ?thesis by simp
  qed
qed

lemma stopsOf_updateGradientStop:
  assumes "stopsOf st lid = Some ss"
  shows "stopsOf (updateGradientStop lid sid u st) lid =
           Some (sortByOffset (map (\<lambda>s. if stop_id s = sid then mergeStop s u else s) ss))"
proof -
  from assms obtain l g where lg: "layers st lid = Some l" "fill l = GradientFill g" "stops g = ss"
    by (auto simp: stopsOf_Some)
  then show ?thesis
    by (simp add: updateGradientStop_def Let_def stopsOf_def)
qed

lemma stop_id_mergeStop: "u_id u = None \<Longrightarrow> stop_id (mergeStop s u) = stop_id s"
  by (simp add: mergeStop_def spread_def)

lemma ids_map_merge:
  "u_id u = None \<Longrightarrow>
     map stop_id (map (\<lambda>s. if stop_id s = sid then mergeStop s u else s) ss) = map stop_id ss"
  by (induction ss) (auto simp: stop_id_mergeStop)

lemma mset_ids_sortByOffset: "mset (map stop_id (sortByOffset ss)) = mset (map stop_id ss)"
proof -
  have "mset (map stop_id (sortByOffset ss)) = image_mset stop_id (mset (sortByOffset ss))"
    by simp
  also have "\<dots> = image_mset stop_id (mset ss)"
    by (simp add: sortByOffset_def)
  finally show ?thesis by simp
qed

lemma offsetEdits_ids:
  "stopsOf st lid = Some ss \<Longrightarrow>
     \<exists>ss'. stopsOf (offsetEdits lid es st) lid = Some ss' \<and>
           sorted (map offset ss') = (es \<noteq> [] \<or> sorted (map offset ss)) \<and>
           mset (map stop_id ss') = mset (map stop_id ss)"
proof (induction es arbitrary: st ss)
  case Nil
  then show ?case by simp
next
  case (Cons e es)
  obtain sid t where e: "e = (sid, t)" by (cases e)
  let ?st1 = "updateGradientStop lid sid (offsetEdit t) st"
  let ?ss1 = "sortByOffset (map (\<lambda>s. if stop_id s = sid then mergeStop s (offsetEdit t) else s) ss)"
  have s1: "stopsOf ?st1 lid = Some ?ss1"
    using Cons.prems by (rule stopsOf_updateGradientStop)
  have sorted1: "sorted (map offset ?ss1)"
    by (simp add: sortByOffset_def)
  have ids1: "mset (map stop_id ?ss1) = mset (map stop_id ss)"
  proof -
    have "u_id (offsetEdit t) = None"
      by (simp add: offsetEdit_def no_stop_updates_def)
    then show ?thesis
      by (simp only: mset_ids_sortByOffset ids_map_merge)
  qed
  from Cons.IH [OF s1] obtain ss' where
    ss': "stopsOf (offsetEdits lid es ?st1) lid = Some ss'"
         "sorted (map offset ss') = (es \<noteq> [] \<or> sorted (map offset ?ss1))"
         "mset (map stop_id ss') = mset (map stop_id ?ss1)"
    by blast
  show ?case
    using ss' sorted1 ids1 by (simp add: e)
qed

text \<open>
  C3, as stated, fails twice. A rejected removal from a two-stop list still stores an undo
  snapshot, so the state is not left unchanged; and when stops share an id, one removal from
  a three-stop list leaves no stop at all.
\<close>

theorem removeGradientStop_counterexample:
  "removeGradientStop ''artboard-1'' ''a'' (stateWithStops twoStops) \<noteq> stateWithStops twoStops
   \<and> stopsOf (stateWithStops twoStops) ''artboard-1'' = Some twoStops
   \<and> length twoStops = 2
   \<and> stopsOf (stateWithStops sharedIdStops) ''artboard-1'' = Some sharedIdStops
   \<and> length sharedIdStops = 3
   \<and> stopsOf (removeGradientStop ''artboard-1'' ''a'' (stateWithStops sharedIdStops))
        ''artboard-1'' = Some []"
proof -
  have "past (history (removeGradientStop ''artboard-1'' ''a'' (stateWithStops twoStops)))
          \<noteq> past (history (stateWithStops twoStops))"
    by (simp add: removeGradientStop_def stateWithStops_def initialState_def saveSnapshot_def
        slice_last_def MAX_HISTORY_def Let_def twoStops_def INITIAL_GRADIENT_def)
  then have a: "removeGradientStop ''artboard-1'' ''a'' (stateWithStops twoStops)
                  \<noteq> stateWithStops twoStops"
    by auto
  have b: "stopsOf (stateWithStops twoStops) ''artboard-1'' = Some twoStops"
    by (simp add: stopsOf_def stateWithStops_def)
  have c: "stopsOf (stateWithStops sharedIdStops) ''artboard-1'' = Some sharedIdStops"
    by (simp add: stopsOf_def stateWithStops_def)
  have d: "stopsOf (removeGradientStop ''artboard-1'' ''a'' (stateWithStops sharedIdStops))
             ''artboard-1'' = Some []"
    by (simp add: stopsOf_removeGradientStop [OF c]) (simp add: sharedIdStops_def)
  show ?thesis
    using a b c d by (simp add: twoStops_def sharedIdStops_def)
qed

text \<open>
  C3, amended: for a layer whose gradient has at least two stops with pairwise distinct
  ids, \<open>removeGradientStop\<close> leaves at least two stops, for every stop id. When the list
  has exactly two stops the call is a no-op on everything but the undo history: the result
  is the state with the history that \<open>saveSnapshot\<close> leaves, the stop list is the same
  list, and nothing is thrown.
\<close>

theorem removeGradientStop_floor:
  assumes "stopsOf st lid = Some ss"
    and "2 \<le> length ss"
    and "distinct (map stop_id ss)"
  shows "\<exists>ss'. stopsOf (removeGradientStop lid sid st) lid = Some ss' \<and> 2 \<le> length ss' \<and>
           (length ss = 2 \<longrightarrow>
              ss' = ss \<and>
              removeGradientStop lid sid st = st\<lparr>history := history (saveSnapshot st)\<rparr>)"
proof -
  let ?ss' = "if length ss \<le> 2 then ss else filter (\<lambda>s. stop_id s \<noteq> sid) ss"
  have r: "stopsOf (removeGradientStop lid sid st) lid = Some ?ss'"
    using assms(1) by (rule stopsOf_removeGradientStop)
  have len: "2 \<le> length ?ss'"
    using assms(2) length_filter_distinct_id [OF assms(3), of sid] by auto
  have noop: "removeGradientStop lid sid st = st\<lparr>history := history (saveSnapshot st)\<rparr>"
    if "length ss = 2"
  proof -
    from assms(1) obtain l g where
      lg: "layers st lid = Some l" "fill l = GradientFill g" "stops g = ss"
      by (auto simp: stopsOf_Some)
    have "removeGradientStop lid sid st = saveSnapshot st"
      using lg that by (simp add: removeGradientStop_def Let_def layers_saveSnapshot)
    also have "\<dots> = st\<lparr>history := history (saveSnapshot st)\<rparr>"
      by (simp add: saveSnapshot_def Let_def)
    finally show ?thesis .
  qed
  show ?thesis
    using r len noop by auto
qed

theorem removeGradientStop_floor_witness:
  "\<exists>ss'. stopsOf (removeGradientStop ''artboard-1'' ''a'' (stateWithStops twoStops))
            ''artboard-1'' = Some ss' \<and> 2 \<le> length ss' \<and>
         (length twoStops = 2 \<longrightarrow>
            ss' = twoStops \<and>
            removeGradientStop ''artboard-1'' ''a'' (stateWithStops twoStops) =
              (stateWithStops twoStops)
                \<lparr>history := history (saveSnapshot (stateWithStops twoStops))\<rparr>)"
proof -
  have a: "stopsOf (stateWithStops twoStops) ''artboard-1'' = Some twoStops"
    by (simp add: stopsOf_def stateWithStops_def)
  have b: "2 \<le> length twoStops"
    by (simp add: twoStops_def)
  have c: "distinct (map stop_id twoStops)"
    by (simp add: twoStops_def)
  show ?thesis
    using removeGradientStop_floor [OF a b c, of "''a''"] .
qed

text \<open>
  C6, as stated, fails: the updates may set the \<open>id\<close> field, and then the set of stop ids
  changes.
\<close>

theorem updateGradientStop_counterexample:
  "map_option (map stop_id) (stopsOf (stateWithStops twoStops) ''artboard-1'')
     = Some [''a'', ''b'']
   \<and> map_option (map stop_id)
       (stopsOf (updateGradientStop ''artboard-1'' ''a'' (no_stop_updates\<lparr>u_id := Some ''z''\<rparr>)
          (stateWithStops twoStops)) ''artboard-1'')
     = Some [''z'', ''b'']"
proof -
  have a: "stopsOf (stateWithStops twoStops) ''artboard-1'' = Some twoStops"
    by (simp add: stopsOf_def stateWithStops_def)
  show ?thesis
    by (simp add: stopsOf_updateGradientStop [OF a] a)
       (simp add: twoStops_def sortByOffset_def mergeStop_def spread_def no_stop_updates_def)
qed

text \<open>
  C6, amended: for every stop list, every stop id and every field updates that do not set
  the \<open>id\<close> field (an offset change included), \<open>updateGradientStop\<close> returns a list sorted
  ascending by offset, with the same ids (as a multiset, hence as a set); stops of equal
  offset keep the order they had (the sort is stable); and after any sequence of offset
  edits the list is sorted and still has the same ids.
\<close>

theorem updateGradientStop_sorted_ids:
  assumes "stopsOf st lid = Some ss"
    and "u_id u = None"
  shows "\<exists>ss'. stopsOf (updateGradientStop lid sid u st) lid = Some ss' \<and>
           sorted (map offset ss') \<and>
           mset (map stop_id ss') = mset (map stop_id ss) \<and>
           set (map stop_id ss') = set (map stop_id ss) \<and>
           (\<forall>k. filter (\<lambda>s. offset s = k) ss' =
                filter (\<lambda>s. offset s = k)
                  (map (\<lambda>s. if stop_id s = sid then mergeStop s u else s) ss)) \<and>
           (\<forall>es. \<exists>ss''. stopsOf (offsetEdits lid es (updateGradientStop lid sid u st)) lid
                          = Some ss'' \<and>
                        sorted (map offset ss'') \<and>
                        mset (map stop_id ss'') = mset (map stop_id ss))"
proof -
  let ?m = "map (\<lambda>s. if stop_id s = sid then mergeStop s u else s) ss"
  let ?ss' = "sortByOffset ?m"
  have r: "stopsOf (updateGradientStop lid sid u st) lid = Some ?ss'"
    using assms(1) by (rule stopsOf_updateGradientStop)
  have srt: "sorted (map offset ?ss')"
    by (simp add: sortByOffset_def)
  have ids: "mset (map stop_id ?ss') = mset (map stop_id ss)"
    by (simp only: mset_ids_sortByOffset ids_map_merge [OF assms(2)])
  have ids_set: "set (map stop_id ?ss') = set (map stop_id ss)"
    using ids by (rule mset_eq_setD)
  have stable: "filter (\<lambda>s. offset s = k) ?ss' = filter (\<lambda>s. offset s = k) ?m" for k
    unfolding sortByOffset_def by (rule sort_key_stable)
  have seq: "\<exists>ss''. stopsOf (offsetEdits lid es (updateGradientStop lid sid u st)) lid = Some ss'' \<and>
               sorted (map offset ss'') \<and> mset (map stop_id ss'') = mset (map stop_id ss)" for es
    using offsetEdits_ids [OF r, of es] srt ids by auto
  show ?thesis
    using r srt ids ids_set stable seq by blast
qed

theorem updateGradientStop_sorted_ids_witness:
  "\<exists>ss'. stopsOf (updateGradientStop ''artboard-1'' ''a'' (offsetEdit 2) (stateWithStops twoStops))
            ''artboard-1'' = Some ss' \<and>
         map stop_id ss' = [''b'', ''a''] \<and>
         sorted (map offset ss') \<and>
         set (map stop_id ss') = set (map stop_id twoStops)"
proof -
  have a: "stopsOf (stateWithStops twoStops) ''artboard-1'' = Some twoStops"
    by (simp add: stopsOf_def stateWithStops_def)
  have b: "u_id (offsetEdit 2) = None"
    by (simp add: offsetEdit_def no_stop_updates_def)
  have c: "stopsOf (updateGradientStop ''artboard-1'' ''a'' (offsetEdit 2)
             (stateWithStops twoStops)) ''artboard-1''
           = Some [\<lparr>stop_id = ''b'', offset = 1, color = ''#FFFFFF'', opacity = 1, midpoint = None\<rparr>,
                   \<lparr>stop_id = ''a'', offset = 2, color = ''#000000'', opacity = 1, midpoint = None\<rparr>]"
    by (simp add: stopsOf_updateGradientStop [OF a])
       (simp add: twoStops_def sortByOffset_def mergeStop_def spread_def offsetEdit_def
          no_stop_updates_def)
  from updateGradientStop_sorted_ids [OF a b, of "''a''"] obtain ss' where
    "stopsOf (updateGradientStop ''artboard-1'' ''a'' (offsetEdit 2) (stateWithStops twoStops))
       ''artboard-1'' = Some ss'"
    "sorted (map offset ss')"
    "set (map stop_id ss') = set (map stop_id twoStops)"
    by blast
  with c show ?thesis by auto
qed

section \<open>Hex interpolation\<close>

lemma toString16_small: "n < 16 \<Longrightarrow> toString16 n = [digit16 n]"
  by (simp add: toString16.simps)

lemma toString16_byte: "16 \<le> n \<Longrightarrow> n < 256 \<Longrightarrow> toString16 n = [digit16 (n div 16), digit16 (n mod 16)]"
  by (subst toString16.simps) (simp add: toString16_small less_mult_imp_div_less)








section \<open>Gamut mapping\<close>

lemma oklch_test_eq: "\<lparr>lch_L = lch_L lch, lch_C = r, lch_H = lch_H lch\<rparr> = lch\<lparr>lch_C := r\<rparr>"
  by simp

lemma gamutSearch_result:
  "gamutSearch n lch lo hi best = best \<or>
   isInGamutSrgbEncoded (oklchToSrgbEncoded (lch\<lparr>lch_C := gamutSearch n lch lo hi best\<rparr>))"
proof (induction n arbitrary: lo hi best)
  case 0
  then show ?case by simp
next
  case (Suc n)
  let ?mid = "(lo + hi) / 2"
  show ?case
  proof (cases "isInGamutSrgbEncoded (oklchToSrgbEncoded (lch\<lparr>lch_C := ?mid\<rparr>))")
    case True
    then have eq: "gamutSearch (Suc n) lch lo hi best = gamutSearch n lch ?mid hi ?mid"
      by (simp add: Let_def oklch_test_eq)
    define r where "r = gamutSearch n lch ?mid hi ?mid"
    from Suc.IH [of ?mid hi ?mid]
    have "r = ?mid \<or> isInGamutSrgbEncoded (oklchToSrgbEncoded (lch\<lparr>lch_C := r\<rparr>))"
      unfolding r_def .
    then have "isInGamutSrgbEncoded (oklchToSrgbEncoded (lch\<lparr>lch_C := r\<rparr>))"
    proof
      assume "r = ?mid"
      with True show ?thesis by (simp only:)
    qed
    then show ?thesis
      unfolding eq r_def by (rule disjI2)
  next
    case False
    then have eq: "gamutSearch (Suc n) lch lo hi best = gamutSearch n lch lo ?mid best"
      by (simp add: Let_def oklch_test_eq)
    from Suc.IH [of lo ?mid best] show ?thesis
      unfolding eq by auto
  qed
qed

lemma gamutSearch_stuck:
  assumes "\<not> isInGamutSrgbEncoded (oklchToSrgbEncoded (lch\<lparr>lch_C := c\<rparr>))"
  shows "gamutSearch n lch c c best = best"
  using assms by (induction n) (simp_all add: Let_def oklch_test_eq)

lemma gamutSearch_le:
  "lo \<le> hi \<Longrightarrow> best \<le> lo \<Longrightarrow> gamutSearch n lch lo hi best \<le> hi"
proof (induction n arbitrary: lo hi best)
  case 0
  then show ?case by simp
next
  case (Suc n)
  let ?mid = "(lo + hi) / 2"
  have m: "lo \<le> ?mid" "?mid \<le> hi" using Suc.prems by simp_all
  show ?case
  proof (cases "isInGamutSrgbEncoded (oklchToSrgbEncoded (lch\<lparr>lch_C := ?mid\<rparr>))")
    case True
    then have eq: "gamutSearch (Suc n) lch lo hi best = gamutSearch n lch ?mid hi ?mid"
      by (simp add: Let_def oklch_test_eq)
    show ?thesis unfolding eq using m by (intro Suc.IH) simp_all
  next
    case False
    then have eq: "gamutSearch (Suc n) lch lo hi best = gamutSearch n lch lo ?mid best"
      by (simp add: Let_def oklch_test_eq)
    show ?thesis unfolding eq using m Suc.prems by (intro order_trans [OF Suc.IH m(2)]) simp_all
  qed
qed

lemma powr_5_12_power: "0 < u \<Longrightarrow> (u powr (5 / 12)) ^ 12 = (u::real) ^ 5"
proof -
  assume u: "0 < u"
  then have "(u powr (5 / 12)) ^ 12 = u powr (of_nat 12 * (5 / 12))"
    by (intro powr_power) simp
  also have "\<dots> = u powr (of_nat 5)" by simp
  also have "\<dots> = u ^ 5" using u by (simp only: powr_realpow)
  finally show ?thesis .
qed

lemma powr_5_12_ge: "0 < u \<Longrightarrow> c ^ 12 \<le> u ^ 5 \<Longrightarrow> c \<le> (u::real) powr (5 / 12)"
proof (rule ccontr)
  assume u: "0 < u" and c: "c ^ 12 \<le> u ^ 5" and n: "\<not> c \<le> u powr (5 / 12)"
  then have "u powr (5 / 12) < c" by simp
  then have "(u powr (5 / 12)) ^ 12 < c ^ 12"
    by (intro power_strict_mono) simp_all
  with c show False
    by (simp only: powr_5_12_power [OF u])
qed

lemma powr_5_12_le: "0 < u \<Longrightarrow> 0 \<le> c \<Longrightarrow> u ^ 5 \<le> c ^ 12 \<Longrightarrow> (u::real) powr (5 / 12) \<le> c"
proof (rule ccontr)
  assume u: "0 < u" and c0: "0 \<le> c" and c: "u ^ 5 \<le> c ^ 12" and n: "\<not> u powr (5 / 12) \<le> c"
  then have "c < u powr (5 / 12)" by simp
  with c0 have "c ^ 12 < (u powr (5 / 12)) ^ 12"
    by (intro power_strict_mono) simp_all
  with c show False
    by (simp only: powr_5_12_power [OF u])
qed


lemma gray_encoded:
  "oklchToSrgbEncoded \<lparr>lch_L = L, lch_C = 0, lch_H = H\<rparr> =
     \<lparr>rgb_r = linearToSrgb (1.00042349749168746561 * L ^ 3),
      rgb_g = linearToSrgb (0.99995487435453628503 * L ^ 3),
      rgb_b = linearToSrgb (0.99919981546454120643 * L ^ 3)\<rparr>"
proof -
  have lab: "oklchToOklab \<lparr>lch_L = L, lch_C = 0, lch_H = H\<rparr> = \<lparr>lab_L = L, lab_a = 0, lab_b = 0\<rparr>"
    by (simp add: oklchToOklab_def)
  have v: "oklabToXyz \<lparr>lab_L = L, lab_a = 0, lab_b = 0\<rparr> =
     \<lparr>xyz_X = 0.9504700194 * L ^ 3, xyz_Y = 1.0000000125 * L ^ 3, xyz_Z = 1.0882999575 * L ^ 3\<rparr>"
    by (simp add: oklabToXyz_def power3_eq_cube)
  have lin: "xyzToLinearSrgb \<lparr>xyz_X = 0.9504700194 * L ^ 3, xyz_Y = 1.0000000125 * L ^ 3, xyz_Z = 1.0882999575 * L ^ 3\<rparr>
     = \<lparr>rgb_r = 1.00042349749168746561 * L ^ 3,
      rgb_g = 0.99995487435453628503 * L ^ 3,
      rgb_b = 0.99919981546454120643 * L ^ 3\<rparr>"
    by (simp add: xyzToLinearSrgb_def)
  show ?thesis
    by (simp only: oklchToSrgbEncoded_def Let_def lab v lin rgb.select_convs)
qed


lemma gamma_exponent: "(1::real) / 2.4 = 5 / 12"
  by simp

lemma linearToSrgb_unit:
  assumes "0 \<le> u" and "u \<le> 1"
  shows "0 \<le> linearToSrgb u \<and> linearToSrgb u \<le> 1"
proof (cases "u \<le> 0.0031308")
  case True
  with assms show ?thesis by (simp add: linearToSrgb_def)
next
  case False
  then have u: "0 < u" "0.0031308 \<le> u" by simp_all
  have "(0.0031308::real) ^ 5 \<le> u ^ 5"
    using u(2) by (intro power_mono) simp_all
  moreover have "(0.06::real) ^ 12 \<le> 0.0031308 ^ 5" by (simp add: power_divide)
  ultimately have "(0.06::real) ^ 12 \<le> u ^ 5" by linarith
  with u(1) have lo: "0.06 \<le> u powr (5 / 12)" by (rule powr_5_12_ge)
  have "u ^ 5 \<le> 1 ^ 12"
    using assms by (simp add: power_le_one)
  with u(1) have hi: "u powr (5 / 12) \<le> 1" by (intro powr_5_12_le) simp_all
  from False lo hi show ?thesis
    by (simp add: linearToSrgb_def)
qed

lemma gray_in_gamut:
  assumes "0 \<le> L" and "L \<le> 0.9998"
  shows "isInGamutSrgbEncoded (oklchToSrgbEncoded \<lparr>lch_L = L, lch_C = 0, lch_H = H\<rparr>)"
proof -
  have q0: "0 \<le> L ^ 3" using assms(1) by simp
  have "L ^ 3 \<le> 0.9998 ^ 3" using assms by (intro power_mono)
  then have q1: "L ^ 3 \<le> 0.9995" by (simp add: power_divide)
  have r: "0 \<le> 1.00042349749168746561 * L ^ 3" "1.00042349749168746561 * L ^ 3 \<le> 1"
    using q0 q1 by simp_all
  have g: "0 \<le> 0.99995487435453628503 * L ^ 3" "0.99995487435453628503 * L ^ 3 \<le> 1"
    using q0 q1 by simp_all
  have b: "0 \<le> 0.99919981546454120643 * L ^ 3" "0.99919981546454120643 * L ^ 3 \<le> 1"
    using q0 q1 by simp_all
  from linearToSrgb_unit [OF r] linearToSrgb_unit [OF g] linearToSrgb_unit [OF b]
  show ?thesis
    by (simp only: gray_encoded isInGamutSrgbEncoded_def Let_def rgb.select_convs) simp
qed

lemma white_red_channel:
  "1.00005 < rgb_r (oklchToSrgbEncoded \<lparr>lch_L = 1, lch_C = 0, lch_H = 0\<rparr>)"
proof -
  have "(1.00005::real) ^ 12 \<le> 1.00042349749168746561 ^ 5" by (simp add: power_divide)
  then have "1.00005 \<le> (1.00042349749168746561::real) powr (5 / 12)"
    by (intro powr_5_12_ge) simp_all
  then have "1.00005 < linearToSrgb (1.00042349749168746561 * 1 ^ 3)"
    by (simp add: linearToSrgb_def)
  then show ?thesis
    by (simp only: gray_encoded rgb.select_convs)
qed

text \<open>
  C10: \<open>clampOklchToSrgbGamut\<close> is idempotent for every input and every iteration budget
  (20 included), and an input that already converts to an in-gamut sRGB triple is returned
  unchanged.
\<close>

theorem clampOklchToSrgbGamut_idempotent:
  "clampOklchToSrgbGamut (clampOklchToSrgbGamut lch maxIter) maxIter
     = clampOklchToSrgbGamut lch maxIter \<and>
   (isInGamutSrgbEncoded (oklchToSrgbEncoded lch) \<longrightarrow>
      clampOklchToSrgbGamut lch maxIter = lch)"
proof -
  have idem: "clampOklchToSrgbGamut (clampOklchToSrgbGamut lch maxIter) maxIter
                = clampOklchToSrgbGamut lch maxIter"
  proof (cases "isInGamutSrgbEncoded (oklchToSrgbEncoded lch)")
    case True
    then show ?thesis by (simp add: clampOklchToSrgbGamut_def)
  next
    case False
    define r where "r = gamutSearch maxIter lch 0 (lch_C lch) 0"
    have c: "clampOklchToSrgbGamut lch maxIter = lch\<lparr>lch_C := r\<rparr>"
      using False by (simp add: clampOklchToSrgbGamut_def r_def)
    show ?thesis
    proof (cases "isInGamutSrgbEncoded (oklchToSrgbEncoded (lch\<lparr>lch_C := r\<rparr>))")
      case True
      then show ?thesis unfolding c by (simp add: clampOklchToSrgbGamut_def)
    next
      case out: False
      with gamutSearch_result [of maxIter lch 0 "lch_C lch" 0] have r0: "r = 0"
        unfolding r_def by blast
      have "\<not> isInGamutSrgbEncoded (oklchToSrgbEncoded ((lch\<lparr>lch_C := 0\<rparr>)\<lparr>lch_C := 0\<rparr>))"
        using out r0 by simp
      then have "gamutSearch maxIter (lch\<lparr>lch_C := 0\<rparr>) 0 0 0 = 0"
        by (rule gamutSearch_stuck)
      with out r0 show ?thesis unfolding c
        by (simp add: clampOklchToSrgbGamut_def)
    qed
  qed
  have unchanged: "clampOklchToSrgbGamut lch maxIter = lch"
    if "isInGamutSrgbEncoded (oklchToSrgbEncoded lch)"
    using that by (simp add: clampOklchToSrgbGamut_def)
  from idem unchanged show ?thesis by blast
qed

theorem clampOklchToSrgbGamut_idempotent_witness:
  "isInGamutSrgbEncoded (oklchToSrgbEncoded \<lparr>lch_L = 0.5, lch_C = 0, lch_H = 0\<rparr>) \<and>
   clampOklchToSrgbGamut \<lparr>lch_L = 0.5, lch_C = 0, lch_H = 0\<rparr> 20
     = \<lparr>lch_L = 0.5, lch_C = 0, lch_H = 0\<rparr> \<and>
   clampOklchToSrgbGamut (clampOklchToSrgbGamut \<lparr>lch_L = 0.5, lch_C = 0, lch_H = 0\<rparr> 20) 20
     = clampOklchToSrgbGamut \<lparr>lch_L = 0.5, lch_C = 0, lch_H = 0\<rparr> 20"
proof -
  have "isInGamutSrgbEncoded (oklchToSrgbEncoded \<lparr>lch_L = 0.5, lch_C = 0, lch_H = 0\<rparr>)"
    by (rule gray_in_gamut) simp_all
  with clampOklchToSrgbGamut_idempotent [of "\<lparr>lch_L = 0.5, lch_C = 0, lch_H = 0\<rparr>" 20]
  show ?thesis by simp
qed

text \<open>
  Away from white the search does what it is meant to do: for \<open>L\<close> in \<open>[0, 0.9998]\<close> and a
  chroma that is not negative, the result is in gamut, its chroma is at most the input's, and
  \<open>L\<close> and \<open>H\<close> are unchanged.
\<close>

lemma clamp_in_gamut_below_white:
  assumes "0 \<le> lch_L lch" and "lch_L lch \<le> 0.9998" and "0 \<le> lch_C lch"
  shows "isInGamutSrgbEncoded (oklchToSrgbEncoded (clampOklchToSrgbGamut lch maxIter)) \<and>
         lch_C (clampOklchToSrgbGamut lch maxIter) \<le> lch_C lch \<and>
         lch_L (clampOklchToSrgbGamut lch maxIter) = lch_L lch \<and>
         lch_H (clampOklchToSrgbGamut lch maxIter) = lch_H lch"
proof (cases "isInGamutSrgbEncoded (oklchToSrgbEncoded lch)")
  case True
  then show ?thesis by (simp add: clampOklchToSrgbGamut_def)
next
  case False
  define r where "r = gamutSearch maxIter lch 0 (lch_C lch) 0"
  have c: "clampOklchToSrgbGamut lch maxIter = lch\<lparr>lch_C := r\<rparr>"
    using False by (simp add: clampOklchToSrgbGamut_def r_def)
  have le: "r \<le> lch_C lch"
    unfolding r_def using assms(3) by (intro gamutSearch_le) simp_all
  have "isInGamutSrgbEncoded (oklchToSrgbEncoded (lch\<lparr>lch_C := r\<rparr>))"
  proof (cases "r = 0")
    case True
    have "isInGamutSrgbEncoded
            (oklchToSrgbEncoded \<lparr>lch_L = lch_L lch, lch_C = 0, lch_H = lch_H lch\<rparr>)"
      using assms(1,2) by (rule gray_in_gamut)
    with True show ?thesis by (simp add: oklch_test_eq)
  next
    case False
    with gamutSearch_result [of maxIter lch 0 "lch_C lch" 0] show ?thesis
      unfolding r_def by blast
  qed
  with le show ?thesis
    unfolding c by simp
qed

text \<open>
  C1: the result is not always in gamut. For white, \<open>{L: 1, C: 0, H: 0}\<close>, the conversion
  has the linear red channel \<open>1.00042\<close> and the encoded red channel above \<open>1 + 5e-5\<close>, so
  \<open>isInGamutSrgbEncoded\<close> rejects it; the search then runs between 0 and 0, finds no
  chroma that fits, and \<open>clampOklchToSrgbGamut\<close> returns the input as it is.
\<close>

theorem clampOklchToSrgbGamut_white:
  "clampOklchToSrgbGamut \<lparr>lch_L = 1, lch_C = 0, lch_H = 0\<rparr> 20
     = \<lparr>lch_L = 1, lch_C = 0, lch_H = 0\<rparr> \<and>
   1.00005 < rgb_r (oklchToSrgbEncoded
                      (clampOklchToSrgbGamut \<lparr>lch_L = 1, lch_C = 0, lch_H = 0\<rparr> 20)) \<and>
   \<not> isInGamutSrgbEncoded
       (oklchToSrgbEncoded (clampOklchToSrgbGamut \<lparr>lch_L = 1, lch_C = 0, lch_H = 0\<rparr> 20))"
proof -
  let ?w = "\<lparr>lch_L = 1, lch_C = 0, lch_H = 0\<rparr>"
  have red: "1.00005 < rgb_r (oklchToSrgbEncoded ?w)"
    by (rule white_red_channel)
  then have out: "\<not> isInGamutSrgbEncoded (oklchToSrgbEncoded ?w)"
    by (simp add: isInGamutSrgbEncoded_def)
  then have "\<not> isInGamutSrgbEncoded (oklchToSrgbEncoded (?w\<lparr>lch_C := 0\<rparr>))"
    by simp
  then have "gamutSearch 20 ?w 0 0 0 = 0"
    by (rule gamutSearch_stuck)
  with out have same: "clampOklchToSrgbGamut ?w 20 = ?w"
    by (simp add: clampOklchToSrgbGamut_def)
  from same red out show ?thesis
    by (simp only:) simp
qed

section \<open>Anti-banding resample\<close>

lemma hexToRgbStruct_black: "hexToRgbStruct ''#000000'' = Some \<lparr>rgb_r = 0, rgb_g = 0, rgb_b = 0\<rparr>"
  by (simp add: hexToRgbStruct_def parseInt16_def substring_def hexDigit_def)

lemma hexToRgbStruct_white: "hexToRgbStruct ''#FFFFFF'' = Some \<lparr>rgb_r = 1, rgb_g = 1, rgb_b = 1\<rparr>"
  by (simp add: hexToRgbStruct_def parseInt16_def substring_def hexDigit_def)

lemma srgbToLinear_0: "srgbToLinear 0 = 0"
  by (simp add: srgbToLinear_def)

lemma srgbToLinear_1: "srgbToLinear 1 = 1"
  by (simp add: srgbToLinear_def)

lemma linearToSrgb_half_round: "js_round (clamp01 (linearToSrgb (1 / 2)) * 255) = 188"
proof -
  have "(0.7491::real) ^ 12 \<le> (1 / 2) ^ 5" by (simp add: power_divide)
  then have lo: "0.7491 \<le> (1 / 2 :: real) powr (5 / 12)"
    by (intro powr_5_12_ge) simp_all
  have "(1 / 2 :: real) ^ 5 \<le> 0.7528 ^ 12" by (simp add: power_divide)
  then have hi: "(1 / 2 :: real) powr (5 / 12) \<le> 0.7528"
    by (intro powr_5_12_le) simp_all
  have v: "linearToSrgb (1 / 2) = 1.055 * (1 / 2) powr (5 / 12) - 0.055"
    by (simp add: linearToSrgb_def)
  have "0 \<le> linearToSrgb (1 / 2)" "linearToSrgb (1 / 2) \<le> 1"
    unfolding v using lo hi by simp_all
  then have c: "clamp01 (linearToSrgb (1 / 2)) = linearToSrgb (1 / 2)"
    by (simp add: clamp01_def)
  have "187.5 \<le> linearToSrgb (1 / 2) * 255" "linearToSrgb (1 / 2) * 255 < 188.5"
    unfolding v using lo hi by simp_all
  then show ?thesis
    unfolding c js_round_def by linarith
qed

lemma channelHex_half: "channelHex (linearToSrgb (1 / 2)) = ''BC''"
  by (simp add: channelHex_def linearToSrgb_half_round toString16_byte padStart_def digit16_def
      toUpperCase_def upperChar_def)


lemma bandSegment_black_white:
  assumes "offset s0 = 0" and "color s0 = ''#000000''" and "offset s1 = 1" and "color s1 = ''#FFFFFF''"
  shows "bandSegment gen n s0 s1 =
           Some (map (bandStop gen n s0 s1 \<lparr>rgb_r = 0, rgb_g = 0, rgb_b = 0\<rparr>
                        \<lparr>rgb_r = 1, rgb_g = 1, rgb_b = 1\<rparr>) [1..<bandSteps])"
  using assms
  by (simp add: bandSegment_def MIN_OFFSET_DIFF_def hexToRgbStruct_black hexToRgbStruct_white
      srgbToLinear_0 srgbToLinear_1)

lemma bandStop_black_white:
  assumes "offset s0 = 0" and "offset s1 = 1"
  shows "stop_id (bandStop gen n s0 s1 lin1 lin2 k) = gen (n + k - 1)"
    and "offset (bandStop gen n s0 s1 lin1 lin2 k) = real k / 8"
  using assms by (simp_all add: bandStop_def bandSteps_def Let_def)

lemma bandStop_middle_color:
  "color (bandStop gen n s0 s1 \<lparr>rgb_r = 0, rgb_g = 0, rgb_b = 0\<rparr>
            \<lparr>rgb_r = 1, rgb_g = 1, rgb_b = 1\<rparr> 4) = ''#BCBCBC''"
  by (simp add: bandStop_def bandSteps_def Let_def channelHex_half)

lemma steps_list: "[1..<bandSteps] = [1, 2, 3, 4, 5, 6, 7]"
  by (simp add: bandSteps_def upt_rec)

lemma fix_black_white:
  assumes "offset s0 = 0" and "color s0 = ''#000000''" and "offset s1 = 1" and "color s1 = ''#FFFFFF''"
  shows "\<exists>r. fixGradientBanding gen [s0, s1] = Some r \<and> length r = 9 \<and>
           r ! 0 = s0 \<and> r ! 8 = s1 \<and>
           map stop_id r = [stop_id s0, gen 0, gen 1, gen 2, gen 3, gen 4, gen 5, gen 6, stop_id s1] \<and>
           map offset r = [0, 1 / 8, 2 / 8, 3 / 8, 4 / 8, 5 / 8, 6 / 8, 7 / 8, 1] \<and>
           color (r ! 4) = ''#BCBCBC''"
proof -
  let ?f = "bandStop gen 0 s0 s1 \<lparr>rgb_r = 0, rgb_g = 0, rgb_b = 0\<rparr> \<lparr>rgb_r = 1, rgb_g = 1, rgb_b = 1\<rparr>"
  let ?r = "[s0, ?f 1, ?f 2, ?f 3, ?f 4, ?f 5, ?f 6, ?f 7, s1]"
  have srt: "sortByOffset [s0, s1] = [s0, s1]"
    using assms by (simp add: sortByOffset_def)
  have seg: "bandSegment gen 0 s0 s1 = Some [?f 1, ?f 2, ?f 3, ?f 4, ?f 5, ?f 6, ?f 7]"
    by (simp only: bandSegment_black_white [OF assms] steps_list list.map)
  have r: "fixGradientBanding gen [s0, s1] = Some ?r"
    by (simp add: fixGradientBanding_def srt seg)
  have ids: "map stop_id ?r = [stop_id s0, gen 0, gen 1, gen 2, gen 3, gen 4, gen 5, gen 6, stop_id s1]"
    by (simp add: bandStop_black_white(1) [OF assms(1,3)])
  have offs: "map offset ?r = [0, 1 / 8, 2 / 8, 3 / 8, 4 / 8, 5 / 8, 6 / 8, 7 / 8, 1]"
    using assms(1,3) by (simp add: bandStop_black_white(2) [OF assms(1,3)])
  have col: "color (?r ! 4) = ''#BCBCBC''"
    by (simp add: bandStop_middle_color)
  show ?thesis
    using r ids offs col by (intro exI [of _ ?r]) simp
qed


lemma bandSegment_below: "belowThreshold s e \<Longrightarrow> bandSegment gen n s e = Some []"
  by (auto simp: belowThreshold_def bandSegment_def MIN_OFFSET_DIFF_def Let_def
      split: option.splits)

lemma bandLoop_hd:
  "bandLoop gen n (e # ys) = Some post \<Longrightarrow> post \<noteq> [] \<and> hd post = e"
  by (cases ys) (auto split: option.splits)

lemma bandLoop_last:
  "bandLoop gen n (xs @ [s]) = Some pre \<Longrightarrow> pre \<noteq> [] \<and> last pre = s"
proof (induction xs arbitrary: n pre)
  case Nil
  then show ?case by auto
next
  case (Cons x xs)
  obtain z zs where z: "xs @ [s] = z # zs" by (cases "xs @ [s]") auto
  from Cons.prems obtain ins r1 where
    r1: "bandLoop gen (n + length ins) (xs @ [s]) = Some r1" and pre: "pre = x # ins @ r1"
    by (auto simp: z split: option.splits)
  from Cons.IH [OF r1] pre show ?case by simp
qed

lemma bandLoop_split:
  assumes "bandLoop gen n (xs @ s # e # ys) = Some r" and "belowThreshold s e"
  shows "\<exists>pre post n'. bandLoop gen n (xs @ [s]) = Some pre \<and>
           bandLoop gen n' (e # ys) = Some post \<and> r = pre @ post"
  using assms(1)
proof (induction xs arbitrary: n r)
  case Nil
  then obtain post where "bandLoop gen n (e # ys) = Some post" "r = s # post"
    by (auto simp: bandSegment_below [OF assms(2)] split: option.splits)
  then show ?case by auto
next
  case (Cons x xs)
  obtain z zs where z: "xs @ s # e # ys = z # zs" by (cases "xs @ s # e # ys") auto
  obtain zs' where z': "xs @ [s] = z # zs'" using z by (cases xs) auto
  from Cons.prems obtain ins r1 where
    seg: "bandSegment gen n x z = Some ins" and
    r1: "bandLoop gen (n + length ins) (xs @ s # e # ys) = Some r1" and r: "r = x # ins @ r1"
    by (auto simp: z split: option.splits)
  from Cons.IH [OF r1] obtain pre post n' where
    pre: "bandLoop gen (n + length ins) (xs @ [s]) = Some pre" and
    post: "bandLoop gen n' (e # ys) = Some post" and r1': "r1 = pre @ post"
    by blast
  have "bandLoop gen n ((x # xs) @ [s]) = Some (x # ins @ pre)"
    using seg pre by (simp add: z')
  with post r r1' show ?case by auto
qed

lemma fix_below:
  assumes "Suc i < length (sortByOffset ss)"
    and "belowThreshold (sortByOffset ss ! i) (sortByOffset ss ! Suc i)"
    and "fixGradientBanding gen ss = Some r"
  shows "\<exists>pre post n. bandLoop gen 0 (take (Suc i) (sortByOffset ss)) = Some pre \<and>
           bandLoop gen n (drop (Suc i) (sortByOffset ss)) = Some post \<and>
           last pre = sortByOffset ss ! i \<and> hd post = sortByOffset ss ! Suc i \<and>
           r = pre @ post"
proof -
  let ?xs = "sortByOffset ss"
  have t: "take (Suc i) ?xs = take i ?xs @ [?xs ! i]"
    using assms(1) by (simp add: take_Suc_conv_app_nth)
  have d: "drop (Suc i) ?xs = ?xs ! Suc i # drop (Suc (Suc i)) ?xs"
    using assms(1) by (simp add: Cons_nth_drop_Suc)
  have xs: "?xs = take i ?xs @ ?xs ! i # ?xs ! Suc i # drop (Suc (Suc i)) ?xs"
    using assms(1) by (metis Suc_lessD append_take_drop_id Cons_nth_drop_Suc)
  have "bandLoop gen 0 ?xs = Some r"
    using assms(1,3) by (simp add: fixGradientBanding_def Let_def)
  then have "bandLoop gen 0 (take i ?xs @ ?xs ! i # ?xs ! Suc i # drop (Suc (Suc i)) ?xs) = Some r"
    using xs by simp
  from bandLoop_split [OF this assms(2)] obtain pre post n where
    pre: "bandLoop gen 0 (take i ?xs @ [?xs ! i]) = Some pre" and
    post: "bandLoop gen n (?xs ! Suc i # drop (Suc (Suc i)) ?xs) = Some post" and
    r: "r = pre @ post"
    by blast
  from bandLoop_last [OF pre] bandLoop_hd [OF post] pre post r show ?thesis
    unfolding t d by blast
qed


text \<open>
  C5, as stated, fails on the ids: nothing in \<open>fixGradientBanding\<close> compares the id it draws
  with the ids already in the list or with the ids it drew before. When every call of
  \<^verbatim>\<open>generateId\<close> returns \<^verbatim>\<open>i\<close> and the black stop has the id \<^verbatim>\<open>i\<close>, the resample of black
  at offset 0 and white at offset 1 has eight stops with the id \<^verbatim>\<open>i\<close>: the original one and
  the seven inserted ones.
\<close>

theorem fixGradientBanding_repeated_ids:
  "map_option (map stop_id) (fixGradientBanding repeatedIds collidingStops)
     = Some [''i'', ''i'', ''i'', ''i'', ''i'', ''i'', ''i'', ''i'', ''b''] \<and>
   map_option (\<lambda>r. distinct (map stop_id r)) (fixGradientBanding repeatedIds collidingStops)
     = Some False"
proof -
  let ?s0 = "\<lparr>stop_id = ''i'', offset = 0, color = ''#000000'', opacity = 1, midpoint = None\<rparr>"
  let ?s1 = "\<lparr>stop_id = ''b'', offset = 1, color = ''#FFFFFF'', opacity = 1, midpoint = None\<rparr>"
  have "\<exists>r. fixGradientBanding repeatedIds [?s0, ?s1] = Some r \<and> length r = 9 \<and>
           r ! 0 = ?s0 \<and> r ! 8 = ?s1 \<and>
           map stop_id r = [stop_id ?s0, repeatedIds 0, repeatedIds 1, repeatedIds 2,
             repeatedIds 3, repeatedIds 4, repeatedIds 5, repeatedIds 6, stop_id ?s1] \<and>
           map offset r = [0, 1 / 8, 2 / 8, 3 / 8, 4 / 8, 5 / 8, 6 / 8, 7 / 8, 1] \<and>
           color (r ! 4) = ''#BCBCBC''"
    by (rule fix_black_white) simp_all
  then obtain r where r: "fixGradientBanding repeatedIds collidingStops = Some r"
    and ids: "map stop_id r = [''i'', ''i'', ''i'', ''i'', ''i'', ''i'', ''i'', ''i'', ''b'']"
    unfolding collidingStops_def by (auto simp: repeatedIds_def)
  show ?thesis
    by (simp add: r ids)
qed

text \<open>
  C5, amended: the anti-banding resample of a black stop at offset 0 and a white stop at
  offset 1 (any ids, opacities and midpoints) has exactly 9 stops: the two originals, unchanged,
  first and last, and between them 7 stops at the offsets \<open>k/8\<close> whose ids are the values of
  the next 7 calls of \<^verbatim>\<open>generateId\<close>, so that the ids of the result are pairwise different
  exactly when those 7 values and the two original ids are; the 5th stop has the colour
  \<open>#BCBCBC\<close>, the linear-light blend at \<open>t = 0.5\<close>. In the resample of any stop list, an
  adjacent pair of the sorted list whose offset gap is below 0.005 or whose sRGB channel-sum
  distance is below 0.05 gets no stop inserted: the result is the resample of the stops up to
  the first of the pair, which ends with it, followed at once by the resample of the stops from
  the second of the pair, which begins with it.
\<close>

theorem fixGradientBanding_resample:
  "(\<exists>r. fixGradientBanding gen
           [\<lparr>stop_id = i0, offset = 0, color = ''#000000'', opacity = o0, midpoint = m0\<rparr>,
            \<lparr>stop_id = i1, offset = 1, color = ''#FFFFFF'', opacity = o1, midpoint = m1\<rparr>] = Some r \<and>
        length r = 9 \<and>
        r ! 0 = \<lparr>stop_id = i0, offset = 0, color = ''#000000'', opacity = o0, midpoint = m0\<rparr> \<and>
        r ! 8 = \<lparr>stop_id = i1, offset = 1, color = ''#FFFFFF'', opacity = o1, midpoint = m1\<rparr> \<and>
        map stop_id r = [i0, gen 0, gen 1, gen 2, gen 3, gen 4, gen 5, gen 6, i1] \<and>
        distinct (map stop_id r)
          = distinct [i0, gen 0, gen 1, gen 2, gen 3, gen 4, gen 5, gen 6, i1] \<and>
        map offset r = [0, 1 / 8, 2 / 8, 3 / 8, 4 / 8, 5 / 8, 6 / 8, 7 / 8, 1] \<and>
        color (r ! 4) = ''#BCBCBC'') \<and>
   (Suc i < length (sortByOffset ss) \<and>
    belowThreshold (sortByOffset ss ! i) (sortByOffset ss ! Suc i) \<and>
    fixGradientBanding gen ss = Some res \<longrightarrow>
      (\<exists>pre post n.
         bandLoop gen 0 (take (Suc i) (sortByOffset ss)) = Some pre \<and>
         bandLoop gen n (drop (Suc i) (sortByOffset ss)) = Some post \<and>
         last pre = sortByOffset ss ! i \<and> hd post = sortByOffset ss ! Suc i \<and>
         res = pre @ post))"
proof -
  let ?s0 = "\<lparr>stop_id = i0, offset = 0, color = ''#000000'', opacity = o0, midpoint = m0\<rparr>"
  let ?s1 = "\<lparr>stop_id = i1, offset = 1, color = ''#FFFFFF'', opacity = o1, midpoint = m1\<rparr>"
  have "\<exists>r. fixGradientBanding gen [?s0, ?s1] = Some r \<and> length r = 9 \<and>
           r ! 0 = ?s0 \<and> r ! 8 = ?s1 \<and>
           map stop_id r = [stop_id ?s0, gen 0, gen 1, gen 2, gen 3, gen 4, gen 5, gen 6, stop_id ?s1] \<and>
           map offset r = [0, 1 / 8, 2 / 8, 3 / 8, 4 / 8, 5 / 8, 6 / 8, 7 / 8, 1] \<and>
           color (r ! 4) = ''#BCBCBC''"
    by (rule fix_black_white) simp_all
  then obtain r where r: "fixGradientBanding gen [?s0, ?s1] = Some r" "length r = 9"
      "r ! 0 = ?s0" "r ! 8 = ?s1"
      "map offset r = [0, 1 / 8, 2 / 8, 3 / 8, 4 / 8, 5 / 8, 6 / 8, 7 / 8, 1]"
      "color (r ! 4) = ''#BCBCBC''"
    and ids: "map stop_id r = [i0, gen 0, gen 1, gen 2, gen 3, gen 4, gen 5, gen 6, i1]"
    by auto
  have "distinct (map stop_id r) = distinct [i0, gen 0, gen 1, gen 2, gen 3, gen 4, gen 5, gen 6, i1]"
    by (simp only: ids)
  with r ids have a: "\<exists>r. fixGradientBanding gen [?s0, ?s1] = Some r \<and> length r = 9 \<and>
           r ! 0 = ?s0 \<and> r ! 8 = ?s1 \<and>
           map stop_id r = [i0, gen 0, gen 1, gen 2, gen 3, gen 4, gen 5, gen 6, i1] \<and>
           distinct (map stop_id r)
             = distinct [i0, gen 0, gen 1, gen 2, gen 3, gen 4, gen 5, gen 6, i1] \<and>
           map offset r = [0, 1 / 8, 2 / 8, 3 / 8, 4 / 8, 5 / 8, 6 / 8, 7 / 8, 1] \<and>
           color (r ! 4) = ''#BCBCBC''"
    by (intro exI [of _ r]) (simp only: simp_thms)
  show ?thesis
    using a fix_below [of i ss gen res] by blast
qed

text \<open>
  With \<open>sampleIds\<close> the nine ids of the resample of \<open>twoStops\<close> are pairwise different, and
  the hard edge of \<open>hardEdgeStops\<close>, whose offsets are 0.002 apart, comes back as it is.
\<close>

theorem fixGradientBanding_resample_witness:
  "(\<exists>r. fixGradientBanding sampleIds twoStops = Some r \<and> length r = 9 \<and>
        map stop_id r = [''a'', ''g'', ''gg'', ''ggg'', ''gggg'', ''ggggg'', ''gggggg'',
          ''ggggggg'', ''b''] \<and>
        distinct (map stop_id r)) \<and>
   Suc 0 < length (sortByOffset hardEdgeStops) \<and>
   belowThreshold (sortByOffset hardEdgeStops ! 0) (sortByOffset hardEdgeStops ! Suc 0) \<and>
   fixGradientBanding sampleIds hardEdgeStops = Some hardEdgeStops \<and>
   (\<exists>pre post n.
      bandLoop sampleIds 0 (take (Suc 0) (sortByOffset hardEdgeStops)) = Some pre \<and>
      bandLoop sampleIds n (drop (Suc 0) (sortByOffset hardEdgeStops)) = Some post \<and>
      last pre = sortByOffset hardEdgeStops ! 0 \<and>
      hd post = sortByOffset hardEdgeStops ! Suc 0 \<and>
      hardEdgeStops = pre @ post)"
proof -
  have srt: "sortByOffset hardEdgeStops = hardEdgeStops"
    by (simp add: sortByOffset_def hardEdgeStops_def)
  have len: "Suc 0 < length (sortByOffset hardEdgeStops)"
    unfolding srt by (simp add: hardEdgeStops_def)
  have below: "belowThreshold (sortByOffset hardEdgeStops ! 0) (sortByOffset hardEdgeStops ! Suc 0)"
    unfolding srt by (simp add: hardEdgeStops_def belowThreshold_def)
  have res: "fixGradientBanding sampleIds hardEdgeStops = Some hardEdgeStops"
    unfolding fixGradientBanding_def srt
    by (simp add: hardEdgeStops_def bandSegment_def MIN_OFFSET_DIFF_def)
  have g: "sampleIds 0 = ''g''" "sampleIds 1 = ''gg''" "sampleIds 2 = ''ggg''"
    "sampleIds 3 = ''gggg''" "sampleIds 4 = ''ggggg''" "sampleIds 5 = ''gggggg''"
    "sampleIds 6 = ''ggggggg''"
    by (simp_all add: sampleIds_def eval_nat_numeral)
  note inst = fixGradientBanding_resample [of sampleIds "''a''" 1 None "''b''" 1 None
      0 hardEdgeStops hardEdgeStops]
  from conjunct1 [OF inst] obtain r where
    r0: "fixGradientBanding sampleIds
           [\<lparr>stop_id = ''a'', offset = 0, color = ''#000000'', opacity = 1, midpoint = None\<rparr>,
            \<lparr>stop_id = ''b'', offset = 1, color = ''#FFFFFF'', opacity = 1, midpoint = None\<rparr>]
         = Some r"
    and len9: "length r = 9"
    and ids: "map stop_id r = [''a'', sampleIds 0, sampleIds 1, sampleIds 2, sampleIds 3,
          sampleIds 4, sampleIds 5, sampleIds 6, ''b'']"
    by (elim exE conjE) (rule that; assumption)
  have r: "fixGradientBanding sampleIds twoStops = Some r" "length r = 9"
    unfolding twoStops_def by (rule r0, rule len9)
  have ids': "map stop_id r = [''a'', ''g'', ''gg'', ''ggg'', ''gggg'', ''ggggg'', ''gggggg'',
          ''ggggggg'', ''b'']"
    using ids by (simp only: g)
  have "distinct (map stop_id r)"
    by (simp add: ids')
  with r ids' have first: "\<exists>r. fixGradientBanding sampleIds twoStops = Some r \<and> length r = 9 \<and>
        map stop_id r = [''a'', ''g'', ''gg'', ''ggg'', ''gggg'', ''ggggg'', ''gggggg'',
          ''ggggggg'', ''b''] \<and>
        distinct (map stop_id r)"
    by (intro exI [of _ r]) (simp only: simp_thms)
  have second: "\<exists>pre post n.
      bandLoop sampleIds 0 (take (Suc 0) (sortByOffset hardEdgeStops)) = Some pre \<and>
      bandLoop sampleIds n (drop (Suc 0) (sortByOffset hardEdgeStops)) = Some post \<and>
      last pre = sortByOffset hardEdgeStops ! 0 \<and>
      hd post = sortByOffset hardEdgeStops ! Suc 0 \<and>
      hardEdgeStops = pre @ post"
    by (rule mp [OF conjunct2 [OF inst] conjI [OF len conjI [OF below res]]])
  from first len below res second show ?thesis
    by (simp only: simp_thms)
qed

section \<open>Projection onto the gradient\<close>

lemma atan2_bounds: "- pi < atan2 y x \<and> atan2 y x \<le> pi"
proof -
  have a: "- (pi / 2) < arctan (y / x)" "arctan (y / x) < pi / 2"
    by (rule arctan_lbound, rule arctan_ubound)
  have p: "0 < pi" by simp
  show ?thesis
  proof (cases "0 < x")
    case True
    with a p show ?thesis by (simp add: atan2_def; linarith)
  next
    case False
    note nx = False
    show ?thesis
    proof (cases "x < 0")
      case True
      show ?thesis
      proof (cases "0 \<le> y")
        case True
        with \<open>x < 0\<close> have "y / x \<le> 0" by (simp add: divide_nonneg_neg)
        then have "arctan (y / x) \<le> 0" by (simp add: arctan_le_zero_iff)
        with a p True \<open>x < 0\<close> show ?thesis by (simp add: atan2_def; linarith)
      next
        case False
        with \<open>x < 0\<close> have "0 < y / x" by (simp add: divide_neg_neg)
        then have "0 < arctan (y / x)" by (simp add: zero_less_arctan_iff)
        with a p False \<open>x < 0\<close> show ?thesis by (simp add: atan2_def; linarith)
      qed
    next
      case False
      with nx p show ?thesis by (simp add: atan2_def; linarith)
    qed
  qed
qed

lemma js_mod_nonneg:
  assumes "0 \<le> a" and "0 < n"
  shows "0 \<le> js_mod a n \<and> js_mod a n < n"
proof (cases "a = 0")
  case True
  with assms show ?thesis by (simp add: js_mod_def)
next
  case False
  with assms have a: "0 < a" by simp
  have f1: "of_int \<lfloor>a / n\<rfloor> \<le> a / n" by simp
  have f2: "a / n < of_int \<lfloor>a / n\<rfloor> + 1" by linarith
  have m: "js_mod a n = a - n * of_int \<lfloor>a / n\<rfloor>"
    using a assms(2) by (simp add: js_mod_def)
  have "n * of_int \<lfloor>a / n\<rfloor> \<le> n * (a / n)"
    using f1 assms(2) by (simp only: mult_le_cancel_left_pos)
  then have lo: "n * of_int \<lfloor>a / n\<rfloor> \<le> a" using assms(2) by simp
  have "n * (a / n) < n * (of_int \<lfloor>a / n\<rfloor> + 1)"
    using f2 assms(2) by (simp only: mult_less_cancel_left_pos)
  then have hi: "a < n * of_int \<lfloor>a / n\<rfloor> + n" using assms(2) by (simp add: algebra_simps)
  from lo hi show ?thesis unfolding m by linarith
qed

lemma conicT_range:
  assumes "angle g \<le> 360"
  shows "0 \<le> conicT g mx my w h \<and> conicT g mx my w h < 1"
proof -
  define rad where "rad = atan2 (my - vec_y (center g) * h) (mx - vec_x (center g) * w)"
  define deg where "deg = js_mod (rad * 180 / pi + 90 + 360) 360"
  have p: "0 < pi" by simp
  from atan2_bounds have r: "- pi < rad" "rad \<le> pi" unfolding rad_def by blast+
  have "- 180 < rad * 180 / pi"
    using r(1) p by (simp add: field_simps)
  then have "0 \<le> rad * 180 / pi + 90 + 360" by simp
  then have d: "0 \<le> deg" "deg < 360"
    unfolding deg_def using js_mod_nonneg [of "rad * 180 / pi + 90 + 360" 360] by simp_all
  have "0 \<le> deg - angle g + 360" using d assms by simp
  then have "0 \<le> js_mod (deg - angle g + 360) 360 \<and> js_mod (deg - angle g + 360) 360 < 360"
    by (intro js_mod_nonneg) simp_all
  moreover have "conicT g mx my w h = js_mod (deg - angle g + 360) 360 / 360"
    by (simp add: conicT_def Let_def deg_def rad_def)
  ultimately show ?thesis by simp
qed

lemma getGradientT_bounds:
  "(gtype g \<noteq> Conic \<longrightarrow>
      0 \<le> getGradientT mx my g w h \<and> getGradientT mx my g w h \<le> 1 \<and>
      (fst (gradientAxis g w h) = snd (gradientAxis g w h) \<longrightarrow> getGradientT mx my g w h = 0)) \<and>
   (gtype g = Conic \<and> angle g \<le> 360 \<longrightarrow>
      0 \<le> getGradientT mx my g w h \<and> getGradientT mx my g w h < 1)"
proof -
  have a: "0 \<le> getGradientT mx my g w h \<and> getGradientT mx my g w h \<le> 1" if "gtype g \<noteq> Conic"
    using that by (simp add: getGradientT_def split: prod.splits option.splits)
  have b: "getGradientT mx my g w h = 0"
    if "gtype g \<noteq> Conic" "fst (gradientAxis g w h) = snd (gradientAxis g w h)"
    using that by (auto simp: getGradientT_def projectOnto_def Let_def split: prod.splits)
  have c: "0 \<le> getGradientT mx my g w h \<and> getGradientT mx my g w h < 1"
    if "gtype g = Conic" "angle g \<le> 360"
    using that conicT_range [of g mx my w h] by (simp add: getGradientT_def)
  from a b c show ?thesis by blast
qed

text \<open>
  C4: the bounds hold for linear and radial gradients and for conic gradients whose angle is
  at most 360 (lemma \<open>getGradientT_bounds\<close>), but not for every conic gradient. With
  \<open>gradient.angle = 450\<close> and the pointer straight above the centre, both copies of the
  conic formula give \<open>t = -1/4\<close>: \<open>angleDeg\<close> is 0, \<open>relativeDeg + 360\<close> is \<open>-90\<close>, and
  the remainder operator keeps the sign of a negative dividend.
\<close>

theorem conic_t_above_full_turn:
  "getGradientT 600 0 conicAbove360 1200 800 = - (1 / 4) \<and>
   getProjectionT (artboardWith conicAbove360) conicAbove360 600 0 = - (1 / 4)"
proof -
  have conic: "conicT conicAbove360 600 0 1200 800 = - (1 / 4)"
    by (simp add: conicT_def conicAbove360_def INITIAL_GRADIENT_def atan2_def js_mod_def Let_def)
  have a: "getGradientT 600 0 conicAbove360 1200 800 = - (1 / 4)"
    using conic by (simp add: getGradientT_def conicAbove360_def)
  have b: "getProjectionT (artboardWith conicAbove360) conicAbove360 600 0 = - (1 / 4)"
    using conic by (simp add: getProjectionT_def conicAbove360_def artboardWith_def)
  from a b show ?thesis ..
qed

section \<open>Offsets set by pointer gestures\<close>

lemma clamp_offset: "(0.01::real) \<le> max 0.01 (min 0.99 v) \<and> max 0.01 (min 0.99 v) \<le> 0.99"
  by (simp add: max_def min_def)

lemma down_line:
  "\<exists>t ov1. handlePointerDown lid layer vp g client HitLine ov =
       (ov1, [CallSetInteractionMode DraggingGradient]) \<and>
     dragRef ov1 = \<lparr>active = True, hasMoved = False, startPos = client,
                    dragState = Some (PotentialStop (vec_x client) (vec_y client) t True)\<rparr> \<and>
     0.01 \<le> t \<and> t \<le> 0.99"
proof -
  let ?t = "max 0.01 (min 0.99 (getProjectionT layer g
              (vec_x (getLocalPoint client vp layer) * width layer)
              (vec_y (getLocalPoint client vp layer) * height layer)))"
  have "handlePointerDown lid layer vp g client HitLine ov =
          (ov\<lparr>dragRef := \<lparr>active = True, hasMoved = False, startPos = client,
                    dragState = Some (PotentialStop (vec_x client) (vec_y client) ?t True)\<rparr>\<rparr>,
           [CallSetInteractionMode DraggingGradient])"
    by (simp add: handlePointerDown_def Let_def)
  with clamp_offset [of "getProjectionT layer g
              (vec_x (getLocalPoint client vp layer) * width layer)
              (vec_y (getLocalPoint client vp layer) * height layer)"]
  show ?thesis by (intro exI [of _ ?t]) simp
qed

lemma move_potential:
  assumes "active (dragRef ov)" and "dragState (dragRef ov) = Some (PotentialStop sx sy t v)"
  shows "\<exists>ov1 v1. handlePointerMove lid layer vp g client ov = (ov1, []) \<and>
           active (dragRef ov1) \<and> dragState (dragRef ov1) = Some (PotentialStop sx sy t v1) \<and>
           (\<not> hasMoved (dragRef ov1) \<longrightarrow> v1 = v)"
  using assms by (auto simp: handlePointerMove_def Let_def)

lemma moves_potential:
  assumes "active (dragRef ov)" and "dragState (dragRef ov) = Some (PotentialStop sx sy t v)"
  shows "\<exists>v1. active (dragRef (pointerMoves lid layer vp g cs ov)) \<and>
           dragState (dragRef (pointerMoves lid layer vp g cs ov)) = Some (PotentialStop sx sy t v1)"
  using assms
proof (induction cs arbitrary: ov v)
  case Nil
  then show ?case by simp
next
  case (Cons c cs)
  from move_potential [OF Cons.prems, of lid layer vp g c] obtain ov1 v1 where
    m: "handlePointerMove lid layer vp g c ov = (ov1, [])" "active (dragRef ov1)"
       "dragState (dragRef ov1) = Some (PotentialStop sx sy t v1)"
    by blast
  from Cons.IH [OF m(2,3)] m(1) show ?case by simp
qed

lemma up_potential:
  assumes "active (dragRef ov)" and "dragState (dragRef ov) = Some (PotentialStop sx sy t v)"
  shows "snd (handlePointerUp lid g ov) =
           (if \<not> hasMoved (dragRef ov) \<and> v
            then [CallAddGradientStop lid t (getGradientColorAt t (stops g)), CallSetInteractionMode Idle]
            else [CallSetInteractionMode Idle])"
  using assms by (simp add: handlePointerUp_def Let_def)

lemma move_stop_clamped:
  assumes "gtype g \<noteq> Conic" and "active (dragRef ov)"
    and "dragState (dragRef ov) = Some (MoveStop sid)"
  shows "\<exists>t. snd (handlePointerMove lid layer vp g client ov) =
               [CallUpdateGradientStop lid sid (no_stop_updates\<lparr>u_offset := Some t\<rparr>)] \<and>
             0.01 \<le> t \<and> t \<le> 0.99"
proof -
  let ?t = "max 0.01 (min 0.99 (getProjectionT layer g
              (vec_x (getLocalPoint client vp layer) * width layer)
              (vec_y (getLocalPoint client vp layer) * height layer)))"
  have "snd (handlePointerMove lid layer vp g client ov) =
          [CallUpdateGradientStop lid sid (no_stop_updates\<lparr>u_offset := Some ?t\<rparr>)]"
    using assms by (simp add: handlePointerMove_def Let_def)
  with clamp_offset [of "getProjectionT layer g
              (vec_x (getLocalPoint client vp layer) * width layer)
              (vec_y (getLocalPoint client vp layer) * height layer)"]
  show ?thesis by (intro exI [of _ ?t]) simp
qed

text \<open>
  C9: for a linear or radial gradient, a pointer-move in the move-stop state updates the
  stop with an offset in \<open>[0.01, 0.99]\<close>; and a pointer-down on the gradient line followed
  by a pointer-up creates a stop at an offset \<open>t\<close> in \<open>[0.01, 0.99]\<close>, while with any
  pointer-moves in between the pointer-up either creates the stop at that same \<open>t\<close> or
  creates none.
\<close>

theorem interactive_offsets_clamped:
  assumes "gtype g \<noteq> Conic"
  shows "(active (dragRef ov) \<and> dragState (dragRef ov) = Some (MoveStop sid) \<longrightarrow>
            (\<exists>t. snd (handlePointerMove lid layer vp g client ov) =
                    [CallUpdateGradientStop lid sid (no_stop_updates\<lparr>u_offset := Some t\<rparr>)] \<and>
                  0.01 \<le> t \<and> t \<le> 0.99)) \<and>
         (\<exists>t. 0.01 \<le> t \<and> t \<le> 0.99 \<and>
               snd (handlePointerUp lid g (fst (handlePointerDown lid layer vp g client HitLine ov0))) =
                 [CallAddGradientStop lid t (getGradientColorAt t (stops g)),
                  CallSetInteractionMode Idle] \<and>
               (\<forall>cs call.
                  call \<in> set (snd (handlePointerUp lid g
                                 (pointerMoves lid layer vp g cs
                                    (fst (handlePointerDown lid layer vp g client HitLine ov0))))) \<longrightarrow>
                  call = CallAddGradientStop lid t (getGradientColorAt t (stops g)) \<or>
                  call = CallSetInteractionMode Idle))"
proof -
  have a: "\<exists>t. snd (handlePointerMove lid layer vp g client ov) =
                    [CallUpdateGradientStop lid sid (no_stop_updates\<lparr>u_offset := Some t\<rparr>)] \<and>
               0.01 \<le> t \<and> t \<le> 0.99"
    if "active (dragRef ov)" "dragState (dragRef ov) = Some (MoveStop sid)"
    using assms that by (rule move_stop_clamped)
  from down_line [of lid layer vp g client ov0] obtain t ov1 where
    d: "handlePointerDown lid layer vp g client HitLine ov0 =
          (ov1, [CallSetInteractionMode DraggingGradient])"
       "dragRef ov1 = \<lparr>active = True, hasMoved = False, startPos = client,
                        dragState = Some (PotentialStop (vec_x client) (vec_y client) t True)\<rparr>"
       "0.01 \<le> t" "t \<le> 0.99"
    by blast
  have act: "active (dragRef ov1)"
    and st: "dragState (dragRef ov1) = Some (PotentialStop (vec_x client) (vec_y client) t True)"
    and nm: "\<not> hasMoved (dragRef ov1)"
    using d(2) by simp_all
  have b: "snd (handlePointerUp lid g (fst (handlePointerDown lid layer vp g client HitLine ov0))) =
             [CallAddGradientStop lid t (getGradientColorAt t (stops g)), CallSetInteractionMode Idle]"
    using up_potential [OF act st, of lid g] nm d(1) by simp
  have c: "call = CallAddGradientStop lid t (getGradientColorAt t (stops g)) \<or>
           call = CallSetInteractionMode Idle"
    if "call \<in> set (snd (handlePointerUp lid g
                          (pointerMoves lid layer vp g cs
                             (fst (handlePointerDown lid layer vp g client HitLine ov0)))))"
    for cs call
  proof -
    from moves_potential [OF act st, of lid layer vp g cs] obtain v1 where
      m: "active (dragRef (pointerMoves lid layer vp g cs ov1))"
         "dragState (dragRef (pointerMoves lid layer vp g cs ov1)) =
            Some (PotentialStop (vec_x client) (vec_y client) t v1)"
      by blast
    from that up_potential [OF m, of lid g] d(1) show ?thesis
      by (auto split: if_splits)
  qed
  from a b c d(3,4) show ?thesis by blast
qed

theorem interactive_offsets_clamped_witness:
  "gtype INITIAL_GRADIENT \<noteq> Conic \<and>
   active (dragRef (draggingStopOverlay INITIAL_GRADIENT)) \<and>
   dragState (dragRef (draggingStopOverlay INITIAL_GRADIENT)) = Some (MoveStop ''init-2'') \<and>
   (\<exists>t. snd (handlePointerMove ''artboard-1'' (artboardWith INITIAL_GRADIENT) initialViewport
                INITIAL_GRADIENT \<lparr>vec_x = 900, vec_y = 500\<rparr>
                (draggingStopOverlay INITIAL_GRADIENT)) =
           [CallUpdateGradientStop ''artboard-1'' ''init-2''
              (no_stop_updates\<lparr>u_offset := Some t\<rparr>)] \<and>
         0.01 \<le> t \<and> t \<le> 0.99)"
proof -
  have ty: "gtype INITIAL_GRADIENT \<noteq> Conic"
    by (simp add: INITIAL_GRADIENT_def)
  have st: "active (dragRef (draggingStopOverlay INITIAL_GRADIENT))"
    "dragState (dragRef (draggingStopOverlay INITIAL_GRADIENT)) = Some (MoveStop ''init-2'')"
    by (simp_all add: draggingStopOverlay_def handlePointerDown_def Let_def INITIAL_GRADIENT_def)
  from interactive_offsets_clamped [OF ty,
      of "draggingStopOverlay INITIAL_GRADIENT" "''init-2''" "''artboard-1''"
         "artboardWith INITIAL_GRADIENT" initialViewport "\<lparr>vec_x = 900, vec_y = 500\<rparr>"]
    ty st
  show ?thesis by blast
qed

section \<open>Rotate gesture\<close>

lemma down_rotate:
  "dragState (dragRef (fst (handlePointerDown lid layer vp g0 client0 HitRotate ov0))) =
     Some (Rotate (rotCenter layer g0)
             (gtype g0 = Linear \<and> gstart g0 \<noteq> None \<and> gend g0 \<noteq> None)
             (sqrt (((vec_x (renderEnd g0) - vec_x (renderStart g0)) * width layer) *
                    ((vec_x (renderEnd g0) - vec_x (renderStart g0)) * width layer) +
                    ((vec_y (renderEnd g0) - vec_y (renderStart g0)) * height layer) *
                    ((vec_y (renderEnd g0) - vec_y (renderStart g0)) * height layer)))
             (angle g0))"
  by (simp add: handlePointerDown_def Let_def)

lemma move_rotate:
  assumes "active (dragRef ov)" and "dragState (dragRef ov) = Some (Rotate c pb len sa)"
  shows "handlePointerMove lid layer vp g client ov =
           (ov\<lparr>dragRef := (dragRef ov)\<lparr>hasMoved :=
               (if (vec_x client - vec_x (startPos (dragRef ov))) *
                   (vec_x client - vec_x (startPos (dragRef ov))) +
                   (vec_y client - vec_y (startPos (dragRef ov))) *
                   (vec_y client - vec_y (startPos (dragRef ov))) > 16
                then True else hasMoved (dragRef ov))\<rparr>\<rparr>,
            [CallUpdateLayerGradient lid
               (rotateUpdates layer g c pb len
                  (vec_x (getLocalPoint client vp layer) * width layer)
                  (vec_y (getLocalPoint client vp layer) * height layer))])"
  using assms by (simp add: handlePointerMove_def Let_def)

lemma rotate_separation:
  fixes len r :: real
  assumes "0 \<le> len"
  shows "sqrt ((cos r * len) * (cos r * len) + (sin r * len) * (sin r * len)) = len"
proof -
  have "(cos r * len) * (cos r * len) + (sin r * len) * (sin r * len) = len\<^sup>2 * ((cos r)\<^sup>2 + (sin r)\<^sup>2)"
    by (simp only: power2_eq_square) (simp only: algebra_simps)
  also have "\<dots> = len\<^sup>2" by simp
  finally show ?thesis using assms by simp
qed

lemma rotateUpdates_points:
  assumes "width layer \<noteq> 0" and "height layer \<noteq> 0" and "gtype g = Linear" and "0 \<le> len"
  shows "\<exists>a s' e'. rotateUpdates layer g c True len mx my =
            no_gradient_updates\<lparr>up_angle := Some a, up_start := Some (Some s'), up_end := Some (Some e')\<rparr> \<and>
          (vec_x s' * width layer + vec_x e' * width layer) / 2 = vec_x c \<and>
          (vec_y s' * height layer + vec_y e' * height layer) / 2 = vec_y c \<and>
          sqrt (((vec_x e' - vec_x s') * width layer) * ((vec_x e' - vec_x s') * width layer) +
                ((vec_y e' - vec_y s') * height layer) * ((vec_y e' - vec_y s') * height layer)) = len"
proof -
  define r where "r = atan2 (my - vec_y c) (mx - vec_x c)"
  define s' where "s' = \<lparr>vec_x = (vec_x c - cos r * (len / 2)) / width layer,
                          vec_y = (vec_y c - sin r * (len / 2)) / height layer\<rparr>"
  define e' where "e' = \<lparr>vec_x = (vec_x c + cos r * (len / 2)) / width layer,
                          vec_y = (vec_y c + sin r * (len / 2)) / height layer\<rparr>"
  have u: "rotateUpdates layer g c True len mx my =
            no_gradient_updates\<lparr>up_angle := Some (js_mod (r * 180 / pi + 90 + 360) 360),
               up_start := Some (Some s'), up_end := Some (Some e')\<rparr>"
    using assms(3) by (simp add: rotateUpdates_def Let_def r_def s'_def e'_def)
  have mx': "(vec_x s' * width layer + vec_x e' * width layer) / 2 = vec_x c"
    using assms(1) by (simp add: s'_def e'_def)
  have my': "(vec_y s' * height layer + vec_y e' * height layer) / 2 = vec_y c"
    using assms(2) by (simp add: s'_def e'_def)
  have dx: "(vec_x e' - vec_x s') * width layer = cos r * len"
    using assms(1) by (simp add: s'_def e'_def field_simps)
  have dy: "(vec_y e' - vec_y s') * height layer = sin r * len"
    using assms(2) by (simp add: s'_def e'_def field_simps)
  have sep: "sqrt (((vec_x e' - vec_x s') * width layer) * ((vec_x e' - vec_x s') * width layer) +
                ((vec_y e' - vec_y s') * height layer) * ((vec_y e' - vec_y s') * height layer)) = len"
    unfolding dx dy using assms(4) by (rule rotate_separation)
  from u mx' my' sep show ?thesis by blast
qed

lemma rotateUpdates_angle_only:
  "rotateUpdates layer g c False len mx my =
     no_gradient_updates\<lparr>up_angle :=
        Some (js_mod (atan2 (my - vec_y c) (mx - vec_x c) * 180 / pi + 90 + 360) 360)\<rparr>"
  by (simp add: rotateUpdates_def Let_def)

lemma merge_angle_only:
  "mergeGradient g (no_gradient_updates\<lparr>up_angle := Some a\<rparr>) = g\<lparr>angle := a\<rparr>"
  by (simp add: mergeGradient_def no_gradient_updates_def spread_def)


lemma gradientOf_updateLayerGradient:
  assumes "gradientOf st lid = Some g"
  shows "\<exists>st'. updateLayerGradient lid u rec st = Inr st' \<and>
           gradientOf st' lid = Some (mergeGradient g u)"
proof -
  from assms obtain l where l: "layers st lid = Some l" "fill l = GradientFill g"
    by (auto simp: gradientOf_def split: option.splits fill.splits)
  then show ?thesis
    by (simp add: updateLayerGradient_def Let_def layers_saveSnapshot gradientOf_def)
qed

text \<open>
  C7: a rotate gesture starts with a pointer-down on the rotate handle of a linear gradient
  \<open>g0\<close>, which freezes the drag state; \<open>ov\<close> is any later state of the component with that
  drag state, and \<open>g\<close> the linear gradient at that time. Every pointer-move then calls
  \<open>updateLayerGradient\<close> once and keeps the drag state. If \<open>g0\<close> stores both \<open>start\<close> and
  \<open>end\<close> (and the layer has a positive width and height), the update sets \<open>start\<close> and \<open>end\<close>
  to points whose midpoint, in layer pixels, is the midpoint of the original handles and
  whose distance, in layer pixels, is the original distance. Otherwise the update sets the
  angle alone, and the gradient stored keeps every other field.
\<close>

theorem rotate_linear_gradient:
  assumes "gtype g0 = Linear" and "gtype g = Linear"
    and "active (dragRef ov)"
    and "dragState (dragRef ov) =
           dragState (dragRef (fst (handlePointerDown lid layer vp g0 client0 HitRotate ov0)))"
  shows "(\<forall>s e. gstart g0 = Some s \<and> gend g0 = Some e \<and> 0 < width layer \<and> 0 < height layer \<longrightarrow>
            (\<exists>a s' e'.
               snd (handlePointerMove lid layer vp g client ov) =
                 [CallUpdateLayerGradient lid
                    (no_gradient_updates\<lparr>up_angle := Some a, up_start := Some (Some s'),
                                           up_end := Some (Some e')\<rparr>)] \<and>
               (\<forall>st. gradientOf st lid = Some g \<longrightarrow>
                  (\<exists>st'. updateLayerGradient lid
                           (no_gradient_updates\<lparr>up_angle := Some a, up_start := Some (Some s'),
                                                  up_end := Some (Some e')\<rparr>) True st = Inr st' \<and>
                         gradientOf st' lid = Some (g\<lparr>angle := a, gstart := Some s', gend := Some e'\<rparr>))) \<and>
               (vec_x s' * width layer + vec_x e' * width layer) / 2 =
                 (vec_x s * width layer + vec_x e * width layer) / 2 \<and>
               (vec_y s' * height layer + vec_y e' * height layer) / 2 =
                 (vec_y s * height layer + vec_y e * height layer) / 2 \<and>
               sqrt (((vec_x e' - vec_x s') * width layer) * ((vec_x e' - vec_x s') * width layer) +
                     ((vec_y e' - vec_y s') * height layer) * ((vec_y e' - vec_y s') * height layer)) =
               sqrt (((vec_x e - vec_x s) * width layer) * ((vec_x e - vec_x s) * width layer) +
                     ((vec_y e - vec_y s) * height layer) * ((vec_y e - vec_y s) * height layer)))) \<and>
         (gstart g0 = None \<or> gend g0 = None \<longrightarrow>
            (\<exists>a. snd (handlePointerMove lid layer vp g client ov) =
                   [CallUpdateLayerGradient lid (no_gradient_updates\<lparr>up_angle := Some a\<rparr>)] \<and>
                 (\<forall>st. gradientOf st lid = Some g \<longrightarrow>
                    (\<exists>st'. updateLayerGradient lid (no_gradient_updates\<lparr>up_angle := Some a\<rparr>)
                             True st = Inr st' \<and>
                           gradientOf st' lid = Some (g\<lparr>angle := a\<rparr>))))) \<and>
         active (dragRef (fst (handlePointerMove lid layer vp g client ov))) \<and>
         dragState (dragRef (fst (handlePointerMove lid layer vp g client ov))) =
           dragState (dragRef ov)"
proof -
  define c where "c = rotCenter layer g0"
  define pb where "pb = (gtype g0 = Linear \<and> gstart g0 \<noteq> None \<and> gend g0 \<noteq> None)"
  define len where "len =
    sqrt (((vec_x (renderEnd g0) - vec_x (renderStart g0)) * width layer) *
          ((vec_x (renderEnd g0) - vec_x (renderStart g0)) * width layer) +
          ((vec_y (renderEnd g0) - vec_y (renderStart g0)) * height layer) *
          ((vec_y (renderEnd g0) - vec_y (renderStart g0)) * height layer))"
  define mx where "mx = vec_x (getLocalPoint client vp layer) * width layer"
  define my where "my = vec_y (getLocalPoint client vp layer) * height layer"
  have st: "dragState (dragRef ov) = Some (Rotate c pb len (angle g0))"
    unfolding assms(4) down_rotate c_def pb_def len_def ..
  note mv = move_rotate [OF assms(3) st, of lid layer vp g client, folded mx_def my_def]
  have calls: "snd (handlePointerMove lid layer vp g client ov) =
                 [CallUpdateLayerGradient lid (rotateUpdates layer g c pb len mx my)]"
    unfolding mv by simp
  have keep: "active (dragRef (fst (handlePointerMove lid layer vp g client ov)))"
    "dragState (dragRef (fst (handlePointerMove lid layer vp g client ov))) = dragState (dragRef ov)"
    unfolding mv using assms(3) by simp_all
  have len0: "0 \<le> len" unfolding len_def by simp
  have points: "\<exists>a s' e'.
               snd (handlePointerMove lid layer vp g client ov) =
                 [CallUpdateLayerGradient lid
                    (no_gradient_updates\<lparr>up_angle := Some a, up_start := Some (Some s'),
                                           up_end := Some (Some e')\<rparr>)] \<and>
               (\<forall>st. gradientOf st lid = Some g \<longrightarrow>
                  (\<exists>st'. updateLayerGradient lid
                           (no_gradient_updates\<lparr>up_angle := Some a, up_start := Some (Some s'),
                                                  up_end := Some (Some e')\<rparr>) True st = Inr st' \<and>
                         gradientOf st' lid = Some (g\<lparr>angle := a, gstart := Some s', gend := Some e'\<rparr>))) \<and>
               (vec_x s' * width layer + vec_x e' * width layer) / 2 =
                 (vec_x s * width layer + vec_x e * width layer) / 2 \<and>
               (vec_y s' * height layer + vec_y e' * height layer) / 2 =
                 (vec_y s * height layer + vec_y e * height layer) / 2 \<and>
               sqrt (((vec_x e' - vec_x s') * width layer) * ((vec_x e' - vec_x s') * width layer) +
                     ((vec_y e' - vec_y s') * height layer) * ((vec_y e' - vec_y s') * height layer)) =
               sqrt (((vec_x e - vec_x s) * width layer) * ((vec_x e - vec_x s) * width layer) +
                     ((vec_y e - vec_y s) * height layer) * ((vec_y e - vec_y s) * height layer))"
    if se: "gstart g0 = Some s" "gend g0 = Some e" and wh: "0 < width layer" "0 < height layer"
    for s e
  proof -
    have pbT: "pb" unfolding pb_def using assms(1) se by simp
    have rs: "renderStart g0 = s" "renderEnd g0 = e"
      using se by (simp_all add: renderStart_def renderEnd_def)
    have cx: "vec_x c = (vec_x s * width layer + vec_x e * width layer) / 2"
      and cy: "vec_y c = (vec_y s * height layer + vec_y e * height layer) / 2"
      unfolding c_def using assms(1) rs by (simp_all add: rotCenter_def Let_def)
    have wh0: "width layer \<noteq> 0" "height layer \<noteq> 0" using wh by simp_all
    from rotateUpdates_points [OF wh0 assms(2) len0, of c mx my] obtain a s' e' where
      u: "rotateUpdates layer g c True len mx my =
            no_gradient_updates\<lparr>up_angle := Some a, up_start := Some (Some s'),
                                   up_end := Some (Some e')\<rparr>"
      and m: "(vec_x s' * width layer + vec_x e' * width layer) / 2 = vec_x c"
             "(vec_y s' * height layer + vec_y e' * height layer) / 2 = vec_y c"
      and d: "sqrt (((vec_x e' - vec_x s') * width layer) * ((vec_x e' - vec_x s') * width layer) +
                ((vec_y e' - vec_y s') * height layer) * ((vec_y e' - vec_y s') * height layer)) = len"
      by blast
    have mg: "mergeGradient g (no_gradient_updates\<lparr>up_angle := Some a, up_start := Some (Some s'),
                                   up_end := Some (Some e')\<rparr>)
              = g\<lparr>angle := a, gstart := Some s', gend := Some e'\<rparr>"
      by (simp add: mergeGradient_def no_gradient_updates_def spread_def)
    have store: "\<exists>st'. updateLayerGradient lid
                           (no_gradient_updates\<lparr>up_angle := Some a, up_start := Some (Some s'),
                                                  up_end := Some (Some e')\<rparr>) True st = Inr st' \<and>
                         gradientOf st' lid = Some (g\<lparr>angle := a, gstart := Some s', gend := Some e'\<rparr>)"
      if "gradientOf st lid = Some g" for st
      using gradientOf_updateLayerGradient [OF that,
          of "no_gradient_updates\<lparr>up_angle := Some a, up_start := Some (Some s'),
                                   up_end := Some (Some e')\<rparr>" True]
      by (simp only: mg)
    have d': "sqrt (((vec_x e' - vec_x s') * width layer) * ((vec_x e' - vec_x s') * width layer) +
                ((vec_y e' - vec_y s') * height layer) * ((vec_y e' - vec_y s') * height layer)) =
              sqrt (((vec_x e - vec_x s) * width layer) * ((vec_x e - vec_x s) * width layer) +
                     ((vec_y e - vec_y s) * height layer) * ((vec_y e - vec_y s) * height layer))"
      unfolding d len_def rs ..
    from calls pbT u have "snd (handlePointerMove lid layer vp g client ov) =
                 [CallUpdateLayerGradient lid
                    (no_gradient_updates\<lparr>up_angle := Some a, up_start := Some (Some s'),
                                           up_end := Some (Some e')\<rparr>)]"
      by simp
    with store m d' show ?thesis
      unfolding cx cy by blast
  qed
  have angle_only: "\<exists>a. snd (handlePointerMove lid layer vp g client ov) =
                   [CallUpdateLayerGradient lid (no_gradient_updates\<lparr>up_angle := Some a\<rparr>)] \<and>
                 (\<forall>st. gradientOf st lid = Some g \<longrightarrow>
                    (\<exists>st'. updateLayerGradient lid (no_gradient_updates\<lparr>up_angle := Some a\<rparr>)
                             True st = Inr st' \<and>
                           gradientOf st' lid = Some (g\<lparr>angle := a\<rparr>)))"
    if "gstart g0 = None \<or> gend g0 = None"
  proof -
    have pbF: "\<not> pb" unfolding pb_def using that by auto
    define a where "a = js_mod (atan2 (my - vec_y c) (mx - vec_x c) * 180 / pi + 90 + 360) 360"
    have u: "rotateUpdates layer g c pb len mx my = no_gradient_updates\<lparr>up_angle := Some a\<rparr>"
      using pbF by (simp add: rotateUpdates_angle_only a_def)
    have store: "\<exists>st'. updateLayerGradient lid (no_gradient_updates\<lparr>up_angle := Some a\<rparr>)
                             True st = Inr st' \<and>
                           gradientOf st' lid = Some (g\<lparr>angle := a\<rparr>)"
      if "gradientOf st lid = Some g" for st
      using gradientOf_updateLayerGradient [OF that,
          of "no_gradient_updates\<lparr>up_angle := Some a\<rparr>" True]
      by (simp only: merge_angle_only)
    from calls u store show ?thesis by auto
  qed
  from points angle_only keep show ?thesis by blast
qed


theorem rotate_linear_gradient_witness:
  "(\<exists>a s' e'.
      snd (handlePointerMove ''artboard-1'' (artboardWith pointGradient) initialViewport pointGradient
             \<lparr>vec_x = 900, vec_y = 500\<rparr> (rotatingOverlay pointGradient)) =
        [CallUpdateLayerGradient ''artboard-1''
           (no_gradient_updates\<lparr>up_angle := Some a, up_start := Some (Some s'),
                                  up_end := Some (Some e')\<rparr>)] \<and>
      (vec_x s' * 1200 + vec_x e' * 1200) / 2 = 600 \<and>
      (vec_y s' * 800 + vec_y e' * 800) / 2 = 400) \<and>
   (\<exists>a.
      snd (handlePointerMove ''artboard-1'' (artboardWith INITIAL_GRADIENT) initialViewport
             INITIAL_GRADIENT \<lparr>vec_x = 900, vec_y = 500\<rparr> (rotatingOverlay INITIAL_GRADIENT)) =
        [CallUpdateLayerGradient ''artboard-1'' (no_gradient_updates\<lparr>up_angle := Some a\<rparr>)])"
proof -
  have lin: "gtype pointGradient = Linear" "gtype INITIAL_GRADIENT = Linear"
    by (simp_all add: pointGradient_def INITIAL_GRADIENT_def)
  have act: "active (dragRef (rotatingOverlay g))" for g
    by (simp add: rotatingOverlay_def handlePointerDown_def Let_def)
  have st: "dragState (dragRef (rotatingOverlay g)) =
              dragState (dragRef (fst (handlePointerDown ''artboard-1'' (artboardWith g)
                 initialViewport g \<lparr>vec_x = 1000, vec_y = 400\<rparr> HitRotate initialOverlay)))" for g
    by (simp add: rotatingOverlay_def)
  have pts: "gstart pointGradient = Some \<lparr>vec_x = 0, vec_y = 0.5\<rparr>"
    "gend pointGradient = Some \<lparr>vec_x = 1, vec_y = 0.5\<rparr>"
    "0 < width (artboardWith pointGradient)" "0 < height (artboardWith pointGradient)"
    by (simp_all add: pointGradient_def artboardWith_def)
  have none: "gstart INITIAL_GRADIENT = None \<or> gend INITIAL_GRADIENT = None"
    by (simp add: INITIAL_GRADIENT_def)
  have wh: "width (artboardWith pointGradient) = 1200" "height (artboardWith pointGradient) = 800"
    by (simp_all add: artboardWith_def)
  from rotate_linear_gradient [OF lin(1) lin(1) act st,
      where client = "\<lparr>vec_x = 900, vec_y = 500\<rparr>"] pts
  obtain a s' e' where
    "snd (handlePointerMove ''artboard-1'' (artboardWith pointGradient) initialViewport pointGradient
             \<lparr>vec_x = 900, vec_y = 500\<rparr> (rotatingOverlay pointGradient)) =
        [CallUpdateLayerGradient ''artboard-1''
           (no_gradient_updates\<lparr>up_angle := Some a, up_start := Some (Some s'),
                                  up_end := Some (Some e')\<rparr>)]"
    "(vec_x s' * width (artboardWith pointGradient) + vec_x e' * width (artboardWith pointGradient)) / 2 =
       (vec_x \<lparr>vec_x = 0, vec_y = 0.5\<rparr> * width (artboardWith pointGradient) +
        vec_x \<lparr>vec_x = 1, vec_y = 0.5\<rparr> * width (artboardWith pointGradient)) / 2"
    "(vec_y s' * height (artboardWith pointGradient) + vec_y e' * height (artboardWith pointGradient)) / 2 =
       (vec_y \<lparr>vec_x = 0, vec_y = 0.5\<rparr> * height (artboardWith pointGradient) +
        vec_y \<lparr>vec_x = 1, vec_y = 0.5\<rparr> * height (artboardWith pointGradient)) / 2"
    by blast
  then have a: "\<exists>a s' e'.
      snd (handlePointerMove ''artboard-1'' (artboardWith pointGradient) initialViewport pointGradient
             \<lparr>vec_x = 900, vec_y = 500\<rparr> (rotatingOverlay pointGradient)) =
        [CallUpdateLayerGradient ''artboard-1''
           (no_gradient_updates\<lparr>up_angle := Some a, up_start := Some (Some s'),
                                  up_end := Some (Some e')\<rparr>)] \<and>
      (vec_x s' * 1200 + vec_x e' * 1200) / 2 = 600 \<and>
      (vec_y s' * 800 + vec_y e' * 800) / 2 = 400"
    unfolding wh by (intro exI [of _ a] exI [of _ s'] exI [of _ e']) simp
  from rotate_linear_gradient [OF lin(2) lin(2) act st,
      where client = "\<lparr>vec_x = 900, vec_y = 500\<rparr>"] none
  have b: "\<exists>a.
      snd (handlePointerMove ''artboard-1'' (artboardWith INITIAL_GRADIENT) initialViewport
             INITIAL_GRADIENT \<lparr>vec_x = 900, vec_y = 500\<rparr> (rotatingOverlay INITIAL_GRADIENT)) =
        [CallUpdateLayerGradient ''artboard-1'' (no_gradient_updates\<lparr>up_angle := Some a\<rparr>)]"
    by blast
  from a b show ?thesis ..
qed

section \<open>From sRGB to OKLCH and back\<close>

lemma cbrt_nonneg: "0 \<le> v \<Longrightarrow> 0 \<le> cbrt v"
  by (simp add: cbrt_def)

lemma cbrt_cube: "0 \<le> v \<Longrightarrow> cbrt v ^ 3 = v"
proof (cases "v = 0")
  case True
  then show ?thesis by (simp add: cbrt_def)
next
  case False
  assume "0 \<le> v"
  with False have v: "0 < v" by simp
  then have "(v powr (1 / 3)) ^ 3 = v powr (of_nat 3 * (1 / 3))"
    by (intro powr_power) simp
  also have "\<dots> = v" using v by simp
  finally show ?thesis using v by (simp add: cbrt_def)
qed

lemma cbrt_ge: "0 \<le> v \<Longrightarrow> lo ^ 3 \<le> v \<Longrightarrow> lo \<le> cbrt v"
proof (rule ccontr)
  assume v: "0 \<le> v" and lo: "lo ^ 3 \<le> v" and n: "\<not> lo \<le> cbrt v"
  then have "cbrt v < lo" by simp
  with cbrt_nonneg [OF v] have "cbrt v ^ 3 < lo ^ 3"
    by (intro power_strict_mono) simp_all
  with lo show False by (simp only: cbrt_cube [OF v])
qed

lemma cbrt_le: "0 \<le> v \<Longrightarrow> 0 \<le> hi \<Longrightarrow> v \<le> hi ^ 3 \<Longrightarrow> cbrt v \<le> hi"
proof (rule ccontr)
  assume v: "0 \<le> v" and h0: "0 \<le> hi" and hi: "v \<le> hi ^ 3" and n: "\<not> cbrt v \<le> hi"
  then have "hi < cbrt v" by simp
  with h0 have "hi ^ 3 < cbrt v ^ 3"
    by (intro power_strict_mono) simp_all
  with hi show False by (simp only: cbrt_cube [OF v])
qed

lemma sqrt_sum_squares_factor:
  fixes a b :: real
  assumes "a \<noteq> 0"
  shows "sqrt (a * a + b * b) = \<bar>a\<bar> * sqrt (1 + (b / a)\<^sup>2)"
proof -
  have "a * a + b * b = a\<^sup>2 * (1 + (b / a)\<^sup>2)"
    using assms by (simp add: power2_eq_square field_simps)
  then have "sqrt (a * a + b * b) = sqrt (a\<^sup>2 * (1 + (b / a)\<^sup>2))" by simp
  also have "\<dots> = sqrt (a\<^sup>2) * sqrt (1 + (b / a)\<^sup>2)" by (rule real_sqrt_mult)
  finally show ?thesis by simp
qed

lemma polar_cos: "sqrt (a * a + b * b) * cos (atan2 b a) = a"
proof (cases "a = 0")
  case True
  then show ?thesis by (simp add: atan2_def)
next
  case False
  have pos: "0 < sqrt (1 + (b / a)\<^sup>2)"
    by (simp add: add_pos_nonneg)
  have c: "cos (arctan (b / a)) = 1 / sqrt (1 + (b / a)\<^sup>2)" by (rule cos_arctan)
  show ?thesis
  proof (cases "0 < a")
    case True
    then show ?thesis
      using pos by (simp add: atan2_def sqrt_sum_squares_factor [OF False] c)
  next
    case neg: False
    with False have "a < 0" by simp
    then show ?thesis
      using pos by (simp add: atan2_def sqrt_sum_squares_factor [OF False] c)
  qed
qed

lemma polar_sin: "sqrt (a * a + b * b) * sin (atan2 b a) = b"
proof (cases "a = 0")
  case True
  then show ?thesis by (simp add: atan2_def)
next
  case False
  have pos: "0 < sqrt (1 + (b / a)\<^sup>2)"
    by (simp add: add_pos_nonneg)
  have s: "sin (arctan (b / a)) = (b / a) / sqrt (1 + (b / a)\<^sup>2)" by (rule sin_arctan)
  show ?thesis
  proof (cases "0 < a")
    case True
    then show ?thesis
      using pos by (simp add: atan2_def sqrt_sum_squares_factor [OF False] s)
  next
    case neg: False
    with False have "a < 0" by simp
    then show ?thesis
      using pos by (simp add: atan2_def sqrt_sum_squares_factor [OF False] s)
  qed
qed

lemma polar_roundtrip:
  assumes "EPS < lch_C (oklabToOklch lab)"
  shows "oklchToOklab (oklabToOklch lab) = lab"
proof -
  define a where "a = lab_a lab"
  define b where "b = lab_b lab"
  define C where "C = sqrt (a * a + b * b)"
  define t where "t = atan2 b a"
  have C: "lch_C (oklabToOklch lab) = C"
    by (simp add: oklabToOklch_def Let_def C_def a_def b_def)
  with assms have big: "C > EPS" by simp
  have L: "lch_L (oklabToOklch lab) = lab_L lab"
    by (simp add: oklabToOklch_def Let_def)
  have H: "lch_H (oklabToOklch lab) = (if t * 180 / pi < 0 then t * 180 / pi + 360 else t * 180 / pi)"
    using big by (simp add: oklabToOklch_def Let_def C_def a_def b_def t_def)
  have hrad: "lch_H (oklabToOklch lab) * pi / 180 = (if t * 180 / pi < 0 then t + 2 * pi else t)"
    unfolding H by (simp add: field_simps)
  have cs: "cos (lch_H (oklabToOklch lab) * pi / 180) = cos t"
    "sin (lch_H (oklabToOklch lab) * pi / 180) = sin t"
    unfolding hrad by simp_all
  have "oklchToOklab (oklabToOklch lab) = \<lparr>lab_L = lab_L lab, lab_a = C * cos t, lab_b = C * sin t\<rparr>"
    by (simp add: oklchToOklab_def Let_def L C cs)
  also have "\<dots> = \<lparr>lab_L = lab_L lab, lab_a = a, lab_b = b\<rparr>"
    unfolding C_def t_def by (simp only: polar_cos polar_sin)
  also have "\<dots> = lab" by (simp add: a_def b_def)
  finally show ?thesis .
qed


lemma toHexUpper_red: "toHexUpper 251 = ''FB''" "toHexUpper 5 = ''05''" "toHexUpper 76 = ''4C''"
  by (simp_all add: toHexUpper_def padStart_def toString16_byte toString16_small digit16_def
      toUpperCase_def upperChar_def)

lemma red_forward:
  "srgbEncodedToOklch \<lparr>rgb_r = 1, rgb_g = 0, rgb_b = 0\<rparr> =
     oklabToOklch
       \<lparr>lab_L = 0.2104542553 * cbrt 0.40288396854745236073 + 0.7936177850 * cbrt 0.21371312245025552371
                 - 0.0040720468 * cbrt 0.13186000273698991636,
        lab_a = 1.9779984951 * cbrt 0.40288396854745236073 - 2.4285922050 * cbrt 0.21371312245025552371
                 + 0.4505937099 * cbrt 0.13186000273698991636,
        lab_b = 0.0259040371 * cbrt 0.40288396854745236073 + 0.7827717662 * cbrt 0.21371312245025552371
                 - 0.8086757660 * cbrt 0.13186000273698991636\<rparr>"
  by (simp add: srgbEncodedToOklch_def srgbToLinear_def linearSrgbToXyz_def xyzToOklab_def Let_def)

lemma red_encoded:
  fixes p q r :: real
  defines "p \<equiv> cbrt 0.40288396854745236073"
    and "q \<equiv> cbrt 0.21371312245025552371"
    and "r \<equiv> cbrt 0.13186000273698991636"
  defines "lab \<equiv> \<lparr>lab_L = 0.2104542553 * p + 0.7936177850 * q - 0.0040720468 * r,
                    lab_a = 1.9779984951 * p - 2.4285922050 * q + 0.4505937099 * r,
                    lab_b = 0.0259040371 * p + 0.7827717662 * q - 0.8086757660 * r\<rparr>"
  shows "\<exists>R G B. oklchToSrgbEncoded (oklabToOklch lab) =
                   \<lparr>rgb_r = linearToSrgb R, rgb_g = linearToSrgb G, rgb_b = linearToSrgb B\<rparr> \<and>
                 0.966191955 \<le> R \<and> R \<le> 0.966191969 \<and>
                 0.001650446 \<le> G \<and> G \<le> 0.001650453 \<and>
                 0.073041627 \<le> B \<and> B \<le> 0.073041631"
proof -
  have pb: "0.738572832 \<le> p" "p \<le> 0.738572833"
    unfolding p_def by (rule cbrt_ge, simp, simp add: power_divide)
      (rule cbrt_le, simp, simp, simp add: power_divide)
  have qb: "0.597875003 \<le> q" "q \<le> 0.597875004"
    unfolding q_def by (rule cbrt_ge, simp, simp add: power_divide)
      (rule cbrt_le, simp, simp, simp add: power_divide)
  have rb: "0.508984269 \<le> r" "r \<le> 0.50898427"
    unfolding r_def by (rule cbrt_ge, simp, simp add: power_divide)
      (rule cbrt_le, simp, simp, simp add: power_divide)
  define L where "L = lab_L lab"
  define a where "a = lab_a lab"
  define b where "b = lab_b lab"
  have Lpqr: "L = 0.2104542553 * p + 0.7936177850 * q - 0.0040720468 * r"
    and apqr: "a = 1.9779984951 * p - 2.4285922050 * q + 0.4505937099 * r"
    and bpqr: "b = 0.0259040371 * p + 0.7827717662 * q - 0.8086757660 * r"
    by (simp_all add: L_def a_def b_def lab_def)
  define l2 where "l2 = L + 0.3963377774 * a + 0.2158037573 * b"
  define m2 where "m2 = L - 0.1055613458 * a - 0.0638541728 * b"
  define s2 where "s2 = L - 0.0894841775 * a - 1.2914855480 * b"
  have l2b: "0.7385728293 \<le> l2" "l2 \<le> 0.7385728304"
    unfolding l2_def Lpqr apqr bpqr using pb qb rb by (simp_all add: algebra_simps)
  have m2b: "0.5978749967 \<le> m2" "m2 \<le> 0.5978749978"
    unfolding m2_def Lpqr apqr bpqr using pb qb rb by (simp_all add: algebra_simps)
  have s2b: "0.508984235 \<le> s2" "s2 \<le> 0.5089842361"
    unfolding s2_def Lpqr apqr bpqr using pb qb rb by (simp_all add: algebra_simps)
  define cl where "cl = l2 * l2 * l2"
  define cm where "cm = m2 * m2 * m2"
  define cs where "cs = s2 * s2 * s2"
  have clb: "0.4028839627 \<le> cl" "cl \<le> 0.4028839646"
  proof -
    have "(0.7385728293::real) ^ 3 \<le> l2 ^ 3" using l2b(1) by (intro power_mono) simp_all
    moreover have "(0.4028839627::real) \<le> 0.7385728293 ^ 3" by (simp add: power_divide)
    ultimately show "0.4028839627 \<le> cl" by (simp add: cl_def power3_eq_cube)
    have "l2 ^ 3 \<le> (0.7385728304::real) ^ 3" using l2b by (intro power_mono) simp_all
    moreover have "(0.7385728304::real) ^ 3 \<le> 0.4028839646" by (simp add: power_divide)
    ultimately show "cl \<le> 0.4028839646" by (simp add: cl_def power3_eq_cube)
  qed
  have cmb: "0.2137131149 \<le> cm" "cm \<le> 0.2137131162"
  proof -
    have "(0.5978749967::real) ^ 3 \<le> m2 ^ 3" using m2b(1) by (intro power_mono) simp_all
    moreover have "(0.2137131149::real) \<le> 0.5978749967 ^ 3" by (simp add: power_divide)
    ultimately show "0.2137131149 \<le> cm" by (simp add: cm_def power3_eq_cube)
    have "m2 ^ 3 \<le> (0.5978749978::real) ^ 3" using m2b by (intro power_mono) simp_all
    moreover have "(0.5978749978::real) ^ 3 \<le> 0.2137131162" by (simp add: power_divide)
    ultimately show "cm \<le> 0.2137131162" by (simp add: cm_def power3_eq_cube)
  qed
  have csb: "0.1318599761 \<le> cs" "cs \<le> 0.131859977"
  proof -
    have "(0.508984235::real) ^ 3 \<le> s2 ^ 3" using s2b(1) by (intro power_mono) simp_all
    moreover have "(0.1318599761::real) \<le> 0.508984235 ^ 3" by (simp add: power_divide)
    ultimately show "0.1318599761 \<le> cs" by (simp add: cs_def power3_eq_cube)
    have "s2 ^ 3 \<le> (0.5089842361::real) ^ 3" using s2b by (intro power_mono) simp_all
    moreover have "(0.5089842361::real) ^ 3 \<le> 0.131859977" by (simp add: power_divide)
    ultimately show "cs \<le> 0.131859977" by (simp add: cs_def power3_eq_cube)
  qed
  define X where "X = 1.2270138511 * cl - 0.5577999807 * cm + 0.2812561490 * cs"
  define Y where "Y = - 0.0405801784 * cl + 1.1122568696 * cm - 0.0716766787 * cs"
  define Z where "Z = - 0.0763812845 * cl - 0.4214819784 * cm + 1.5861632204 * cs"
  define R where "R = 3.2409699419 * X - 1.5373831776 * Y - 0.4986107603 * Z"
  define G where "G = - 0.9692436363 * X + 1.8759675015 * Y + 0.0415550574 * Z"
  define B where "B = 0.0556300797 * X - 0.2039769589 * Y + 1.0569715142 * Z"
  have Rb: "0.966191955 \<le> R" "R \<le> 0.966191969"
    unfolding R_def X_def Y_def Z_def using clb cmb csb by (simp_all add: algebra_simps)
  have Gb: "0.001650446 \<le> G" "G \<le> 0.001650453"
    unfolding G_def X_def Y_def Z_def using clb cmb csb by (simp_all add: algebra_simps)
  have Bb: "0.073041627 \<le> B" "B \<le> 0.073041631"
    unfolding B_def X_def Y_def Z_def using clb cmb csb by (simp_all add: algebra_simps)
  have a_pos: "0.2 \<le> a"
    unfolding apqr using pb qb rb by (simp add: algebra_simps)
  have "a * a \<le> a * a + b * b" by simp
  then have "sqrt (a * a) \<le> sqrt (a * a + b * b)" by (rule real_sqrt_le_mono)
  then have "a \<le> sqrt (a * a + b * b)" using a_pos by simp
  then have "a \<le> lch_C (oklabToOklch lab)"
    by (simp add: oklabToOklch_def Let_def a_def b_def)
  with a_pos have "EPS < lch_C (oklabToOklch lab)"
    by (simp add: EPS_def)
  then have polar: "oklchToOklab (oklabToOklch lab) = lab"
    by (rule polar_roundtrip)
  have v: "oklabToXyz lab = \<lparr>xyz_X = X, xyz_Y = Y, xyz_Z = Z\<rparr>"
    by (simp add: oklabToXyz_def Let_def X_def Y_def Z_def cl_def cm_def cs_def
        l2_def m2_def s2_def L_def a_def b_def)
  have lin: "xyzToLinearSrgb \<lparr>xyz_X = X, xyz_Y = Y, xyz_Z = Z\<rparr> = \<lparr>rgb_r = R, rgb_g = G, rgb_b = B\<rparr>"
    by (simp add: xyzToLinearSrgb_def Let_def R_def G_def B_def)
  have "oklchToSrgbEncoded (oklabToOklch lab) =
          \<lparr>rgb_r = linearToSrgb R, rgb_g = linearToSrgb G, rgb_b = linearToSrgb B\<rparr>"
    by (simp only: oklchToSrgbEncoded_def Let_def polar v lin rgb.select_convs)
  with Rb Gb Bb show ?thesis by blast
qed

lemma gamma_round:
  fixes u clo chi :: real and n :: int
  assumes "0.0031308 < u" and "clo ^ 12 \<le> u ^ 5" and "u ^ 5 \<le> chi ^ 12" and "0 \<le> chi"
    and "real_of_int n - 1 / 2 \<le> (1.055 * clo - 0.055) * 255"
    and "(1.055 * chi - 0.055) * 255 < real_of_int n + 1 / 2"
    and "0 \<le> 1.055 * clo - 0.055" and "1.055 * chi - 0.055 \<le> 1"
  shows "js_round (clamp01 (linearToSrgb u) * 255) = n \<and>
         0 \<le> linearToSrgb u \<and> linearToSrgb u \<le> 1"
proof -
  have u: "0 < u" using assms(1) by simp
  have lo: "clo \<le> u powr (5 / 12)" using u assms(2) by (rule powr_5_12_ge)
  have hi: "u powr (5 / 12) \<le> chi" using u assms(4,3) by (rule powr_5_12_le)
  have v: "linearToSrgb u = 1.055 * u powr (5 / 12) - 0.055"
    using assms(1) by (simp add: linearToSrgb_def)
  have v0: "0 \<le> linearToSrgb u" and v1: "linearToSrgb u \<le> 1"
    unfolding v using lo hi assms(7,8) by simp_all
  then have c: "clamp01 (linearToSrgb u) = linearToSrgb u"
    by (simp add: clamp01_def)
  have "real_of_int n - 1 / 2 \<le> linearToSrgb u * 255" "linearToSrgb u * 255 < real_of_int n + 1 / 2"
    unfolding v using lo hi assms(5,6) by simp_all
  then have "js_round (linearToSrgb u * 255) = n"
    unfolding js_round_def by linarith
  with c v0 v1 show ?thesis by simp
qed

lemma linear_round:
  fixes u :: real and n :: int
  assumes "0 \<le> u" and "u \<le> 0.0031308"
    and "real_of_int n - 1 / 2 \<le> 12.92 * u * 255" and "12.92 * u * 255 < real_of_int n + 1 / 2"
  shows "js_round (clamp01 (linearToSrgb u) * 255) = n \<and>
         0 \<le> linearToSrgb u \<and> linearToSrgb u \<le> 1"
proof -
  have v: "linearToSrgb u = 12.92 * u"
    using assms(2) by (simp add: linearToSrgb_def)
  have v0: "0 \<le> linearToSrgb u" and v1: "linearToSrgb u \<le> 1"
    unfolding v using assms(1,2) by simp_all
  then have c: "clamp01 (linearToSrgb u) = linearToSrgb u"
    by (simp add: clamp01_def)
  have "js_round (linearToSrgb u * 255) = n"
    unfolding js_round_def v using assms(3,4) by linarith
  with c v0 v1 show ?thesis by simp
qed

text \<open>
  C2: the round trip does not reproduce pure red. \<open>srgbEncodedToOklch\<close> of
  \<open>{r: 1, g: 0, b: 0}\<close> followed by \<open>oklchToHex\<close> with alpha 1 gives \<open>#FB054C\<close>: the
  channels 251, 5 and 76 instead of 255, 0 and 0. \<open>linearSrgbToXyz\<close> holds the
  coefficients that take linear sRGB to LMS, and \<open>xyzToOklab\<close> applies the XYZ-to-LMS
  matrix to its result, so the forward path is not the inverse of the backward path.
\<close>

theorem round_trip_red:
  "oklchToHex (srgbEncodedToOklch \<lparr>rgb_r = 1, rgb_g = 0, rgb_b = 0\<rparr>) 1 = ''#FB054C''"
proof -
  define lch where "lch = srgbEncodedToOklch \<lparr>rgb_r = 1, rgb_g = 0, rgb_b = 0\<rparr>"
  from red_encoded obtain R G B where
    enc: "oklchToSrgbEncoded lch =
            \<lparr>rgb_r = linearToSrgb R, rgb_g = linearToSrgb G, rgb_b = linearToSrgb B\<rparr>"
    and Rb: "0.966191955 \<le> R" "R \<le> 0.966191969"
    and Gb: "0.001650446 \<le> G" "G \<le> 0.001650453"
    and Bb: "0.073041627 \<le> B" "B \<le> 0.073041631"
    unfolding lch_def red_forward by blast
  have r: "js_round (clamp01 (linearToSrgb R) * 255) = 251 \<and>
           0 \<le> linearToSrgb R \<and> linearToSrgb R \<le> 1"
  proof (rule gamma_round [where clo = "0.985" and chi = "0.9865"])
    show "0.0031308 < R" using Rb by simp
    have "(0.966191955::real) ^ 5 \<le> R ^ 5" using Rb by (intro power_mono) simp_all
    moreover have "(0.985::real) ^ 12 \<le> 0.966191955 ^ 5" by (simp add: power_divide)
    ultimately show "(0.985::real) ^ 12 \<le> R ^ 5" by linarith
    have "R ^ 5 \<le> (0.966191969::real) ^ 5" using Rb by (intro power_mono) simp_all
    moreover have "(0.966191969::real) ^ 5 \<le> 0.9865 ^ 12" by (simp add: power_divide)
    ultimately show "R ^ 5 \<le> (0.9865::real) ^ 12" by linarith
  qed simp_all
  have b: "js_round (clamp01 (linearToSrgb B) * 255) = 76 \<and>
           0 \<le> linearToSrgb B \<and> linearToSrgb B \<le> 1"
  proof (rule gamma_round [where clo = "0.336" and chi = "0.3364"])
    show "0.0031308 < B" using Bb by simp
    have "(0.073041627::real) ^ 5 \<le> B ^ 5" using Bb by (intro power_mono) simp_all
    moreover have "(0.336::real) ^ 12 \<le> 0.073041627 ^ 5" by (simp add: power_divide)
    ultimately show "(0.336::real) ^ 12 \<le> B ^ 5" by linarith
    have "B ^ 5 \<le> (0.073041631::real) ^ 5" using Bb by (intro power_mono) simp_all
    moreover have "(0.073041631::real) ^ 5 \<le> 0.3364 ^ 12" by (simp add: power_divide)
    ultimately show "B ^ 5 \<le> (0.3364::real) ^ 12" by linarith
  qed simp_all
  have g: "js_round (clamp01 (linearToSrgb G) * 255) = 5 \<and>
           0 \<le> linearToSrgb G \<and> linearToSrgb G \<le> 1"
    using Gb by (intro linear_round) simp_all
  have "isInGamutSrgbEncoded (oklchToSrgbEncoded lch)"
    unfolding enc using r g b by (simp add: isInGamutSrgbEncoded_def)
  then have cl: "clampOklchToSrgbGamut lch 20 = lch"
    by (simp add: clampOklchToSrgbGamut_def)
  have "oklchToHex lch 1 = ''#'' @ toHexUpper 251 @ toHexUpper 5 @ toHexUpper 76"
    using r g b by (simp add: oklchToHex_def cl enc Let_def)
  then show ?thesis
    unfolding lch_def by (simp add: toHexUpper_red)
qed

end
